theory Spec2Isabelle
  imports Complex_Main "HOL-Library.Word" "HOL-Library.Sublist" "HOL-Library.Log_Nat"
begin

section \<open>JavaScript strings\<close>

text \<open>
  A JavaScript string is a sequence of 16-bit code units. The literals of
  \<^verbatim>\<open>src/lib/speechBridge.js\<close> that matter here are ASCII, so they are written through
  \<open>js\<close>, which maps every character of an Isabelle string to its code unit.
\<close>

type_synonym jschar = "16 word"
type_synonym jsstring = "jschar list"

definition js :: "string \<Rightarrow> jsstring" where
  "js cs = map of_char cs"

text \<open>
  \<^verbatim>\<open>String.prototype.trim\<close> removes the code units of ECMAScript's WhiteSpace and
  LineTerminator productions from both ends.
\<close>

definition is_js_space :: "jschar \<Rightarrow> bool" where
  "is_js_space c \<longleftrightarrow>
     c = 0x9 \<or> c = 0xA \<or> c = 0xB \<or> c = 0xC \<or> c = 0xD \<or> c = 0x20 \<or> c = 0xA0 \<or>
     c = 0x1680 \<or> (0x2000 \<le> c \<and> c \<le> 0x200A) \<or> c = 0x2028 \<or> c = 0x2029 \<or>
     c = 0x202F \<or> c = 0x205F \<or> c = 0x3000 \<or> c = 0xFEFF"

definition js_trim :: "jsstring \<Rightarrow> jsstring" where
  "js_trim s = rev (dropWhile is_js_space (rev (dropWhile is_js_space s)))"

text \<open>\<^verbatim>\<open>Array.prototype.join\<close> on an array of strings.\<close>

fun js_join :: "'a list \<Rightarrow> 'a list list \<Rightarrow> 'a list" where
  "js_join sep [] = []"
| "js_join sep [x] = x"
| "js_join sep (x # y # ys) = x @ sep @ js_join sep (y # ys)"

text \<open>
  \<^verbatim>\<open>String.prototype.split\<close> with a non-empty separator: the string is scanned from
  the left; at every position where the separator starts, the text collected so far is
  emitted and the separator is skipped. \<open>split_scan sep k acc s\<close> still has \<open>k\<close> code units
  of a matched separator to skip and has collected \<open>rev acc\<close>.
\<close>

fun split_scan :: "'a list \<Rightarrow> nat \<Rightarrow> 'a list \<Rightarrow> 'a list \<Rightarrow> 'a list list" where
  "split_scan sep k acc [] = [rev acc]"
| "split_scan sep (Suc k) acc (x # xs) = split_scan sep k acc xs"
| "split_scan sep 0 acc (x # xs) =
     (if prefix sep (x # xs) then rev acc # split_scan sep (length sep - 1) [] xs
      else split_scan sep 0 (x # acc) xs)"

definition js_split :: "'a list \<Rightarrow> 'a list \<Rightarrow> 'a list list" where
  "js_split sep s = split_scan sep 0 [] s"

text \<open>\<^verbatim>\<open>lines.slice(-n)\<close>: the last \<open>n\<close> elements, all of them when there are fewer.\<close>

definition slice_last :: "nat \<Rightarrow> 'a list \<Rightarrow> 'a list" where
  "slice_last n xs = drop (length xs - n) xs"

text \<open>\<^verbatim>\<open>String(n)\<close> for a non-negative integer, and \<^verbatim>\<open>padStart(2, "0")\<close>.\<close>

fun js_string_of_nat :: "nat \<Rightarrow> jsstring" where
  "js_string_of_nat n =
     (if n < 10 then [of_nat (48 + n)]
      else js_string_of_nat (n div 10) @ [of_nat (48 + n mod 10)])"

definition padStart2 :: "jsstring \<Rightarrow> jsstring" where
  "padStart2 s = (if length s < 2 then replicate (2 - length s) 0x30 @ s else s)"

definition formatMMSS :: "int \<Rightarrow> jsstring" where
  "formatMMSS ms =
     (let s0 = nat (max 0 (ms div 1000));
          m = s0 div 60;
          s = s0 mod 60
      in padStart2 (js_string_of_nat m) @ js ''m '' @ padStart2 (js_string_of_nat s) @ js ''s'')"

section \<open>JavaScript numbers\<close>

text \<open>
  A JavaScript number is an IEEE 754 double, and an arithmetic operation gives the double
  nearest to the exact result, a tie going to the even significand. The model keeps a
  finite number as the rational it denotes. \<open>exponent x\<close> is the integer \<open>e\<close> with
  \<open>2\<^sup>e \<le> x < 2\<^sup>e\<^sup>+\<^sup>1\<close> for a positive \<open>x\<close>; the doubles around \<open>x\<close> are the multiples of
  \<open>2\<^sup>e\<^sup>-\<^sup>5\<^sup>2\<close>, and of \<open>2\<^sup>-\<^sup>1\<^sup>0\<^sup>7\<^sup>4\<close> in the subnormal range. \<open>round_double x\<close> is the double
  nearest to \<open>x\<close>. Where the nearest multiple reaches \<open>2\<^sup>1\<^sup>0\<^sup>2\<^sup>4\<close> the language gives
  \<^verbatim>\<open>Infinity\<close>; \<open>round_double\<close> gives that multiple.
\<close>

definition pow2 :: "int \<Rightarrow> rat" where
  "pow2 k = (if 0 \<le> k then 2 ^ nat k else 1 / 2 ^ nat (- k))"

definition exponent :: "rat \<Rightarrow> int" where
  "exponent x = (if 1 \<le> x then bitlen \<lfloor>x\<rfloor> - 1 else - bitlen (\<lceil>1 / x\<rceil> - 1))"

definition round_even :: "rat \<Rightarrow> int" where
  "round_even y =
     (let f = \<lfloor>y\<rfloor>; d = y - of_int f
      in if d < 1 / 2 then f else if 1 / 2 < d then f + 1 else if even f then f else f + 1)"

definition round_double :: "rat \<Rightarrow> rat" where
  "round_double x =
     (if x = 0 then 0
      else
        let q = pow2 (max (exponent \<bar>x\<bar> - 52) (- 1074))
        in sgn x * of_int (round_even (\<bar>x\<bar> / q)) * q)"

section \<open>Configuration\<close>

definition WATCHDOG_TIMEOUT_MS :: int where "WATCHDOG_TIMEOUT_MS = 3100"
definition WATCHDOG_CHECK_INTERVAL_MS :: rat where "WATCHDOG_CHECK_INTERVAL_MS = 1000"
definition INITIAL_RETRY_DELAY_MS :: rat where "INITIAL_RETRY_DELAY_MS = 100"
definition MAX_RETRY_DELAY_MS :: rat where "MAX_RETRY_DELAY_MS = 3000"
definition RETRY_MULTIPLIER :: rat where "RETRY_MULTIPLIER = 3 / 2"
definition USE_DUAL_RECOGNITION :: bool where "USE_DUAL_RECOGNITION = True"
definition OVERLAP_RESTART_DELAY_MS :: rat where "OVERLAP_RESTART_DELAY_MS = 50"
definition MAX_CONSECUTIVE_ERRORS :: nat where "MAX_CONSECUTIVE_ERRORS = 10"
definition ERROR_COOLDOWN_MS :: rat where "ERROR_COOLDOWN_MS = 3000"
definition RESULT_DEBOUNCE_MS :: rat where "RESULT_DEBOUNCE_MS = 100"

section \<open>State of the bridge\<close>

text \<open>
  Numbers. \<^verbatim>\<open>retryDelay\<close> and \<^verbatim>\<open>nLines\<close> are JavaScript numbers; the model keeps them
  as rationals. Every value the backoff can take (100 times a power of 1.5 below 3000,
  and 3000) is a dyadic rational with fewer than 53 significant bits, so the
  multiplication by 1.5 is exact in the source as well. A value handed to
  \<^verbatim>\<open>setNLines\<close> is the result of \<^verbatim>\<open>Number(v)\<close>, which may also be NaN or infinite; it
  is stored as it is, so \<^verbatim>\<open>nLines\<close> can hold any finite double that is not negative, and
  \<^verbatim>\<open>nLines++\<close> rounds. The sum of a double and 1 stays finite: the largest double plus 1
  rounds to the largest double. (Were it \<^verbatim>\<open>Infinity\<close>, it would be above 50 like the
  multiple that \<open>round_double\<close> gives, and \<^verbatim>\<open>nLines\<close> would become 50 all the same.)
\<close>

datatype jsnum = Num rat | PosInfinity | NegInfinity | NaN

fun isFinite :: "jsnum \<Rightarrow> bool" where
  "isFinite (Num q) = True"
| "isFinite PosInfinity = False"
| "isFinite NegInfinity = False"
| "isFinite NaN = False"

fun ge_zero :: "jsnum \<Rightarrow> bool" where
  "ge_zero (Num q) = (q \<ge> 0)"
| "ge_zero PosInfinity = True"
| "ge_zero NegInfinity = False"
| "ge_zero NaN = False"

datatype label = Primary | Backup

text \<open>
  A recognition object as far as the bridge reads or writes it: \<^verbatim>\<open>lang\<close>, \<^verbatim>\<open>_label\<close>
  and \<^verbatim>\<open>_isStarted\<close>. The objects live in a store; the variables \<^verbatim>\<open>recognition\<close> and
  \<^verbatim>\<open>recognitionBackup\<close> hold references into it, and so does every event handler
  (the \<^verbatim>\<open>rec\<close> of its closure).
\<close>

record session =
  lang :: jsstring
  slabel :: label
  isStarted :: bool

datatype callback = FlushCb | RestartCb label | CooldownCb | WatchdogCb | UiTimerCb

text \<open>A pending timer: its handle, its callback, its delay, and whether it repeats.\<close>

record timer =
  tid :: nat
  tcallback :: callback
  tdelay :: rat
  tscheduled :: int
  trepeat :: bool

datatype banner =
    BannerAudioCapture | BannerNotAllowed | BannerNetwork | BannerServiceNotAllowed
  | BannerTooManyErrors | BannerResuming | BannerNoWebSpeech | BannerNotSupported
  | BannerCreateFailed | BannerStarted | BannerStartFailed | BannerStopped

datatype dbgmsg =
    DbgNewLine jsstring bool
  | DbgStarted label | DbgAudioStart label | DbgSoundStart label | DbgSpeechStart label
  | DbgSpeechEnd label | DbgSoundEnd label | DbgAudioEnd label | DbgEnded label
  | DbgAutoRestart label rat
  | DbgError label jsstring | DbgNoSpeech label | DbgAborted label | DbgNetwork label
  | DbgUnknownError label jsstring
  | DbgSingleRestart | DbgRestartFailed
  | DbgDualRestart label | DbgCreateFailed | DbgActivated label | DbgActivateFailed label
  | DbgTooManyErrors nat | DbgResuming
  | DbgWatchdog int
  | DbgHidden | DbgVisible | DbgNoActiveInstance
  | DbgNoWebSpeech | DbgWebSpeechAvailable | DbgConfig
  | DbgAlreadyRecording | DbgStartFailed | DbgStopping
  | DbgLanguage jsstring

text \<open>
  What the bridge does to the outside: the calls of the consumer's callbacks, the
  commands sent to a recognition object, and the listener on the document.
\<close>

datatype action =
    Banner banner
  | Status bool
  | TimerText jsstring
  | TranscriptHtml jsstring
  | PartialText jsstring
  | Debug int dbgmsg
  | Autosave
  | CmdStart nat
  | CmdAbort nat
  | AddVisibilityListener
  | RemoveVisibilityListener

record engine =
  sessions :: "session list"
  recognition :: "nat option"
  recognitionBackup :: "nat option"
  activeRecognition :: label
  transcribedAll :: jsstring
  nLines :: rat
  currentPartial :: jsstring
  pendingFinals :: "jsstring list"
  isRecording :: bool
  shouldBeRecording :: bool
  startTime :: int
  timerInterval :: "nat option"
  lastEventTime :: int
  watchdogInterval :: "nat option"
  retryDelay :: rat
  consecutiveErrors :: nat
  isRestarting :: bool
  restartTimeout :: "nat option"
  resultDebounceTimer :: "nat option"
  timers :: "timer list"
  next_timer :: nat
  trace :: "action list"

definition initial :: engine where
  "initial =
     \<lparr>sessions = [], recognition = None, recognitionBackup = None,
      activeRecognition = Primary, transcribedAll = [], nLines = 0, currentPartial = [],
      pendingFinals = [], isRecording = False, shouldBeRecording = False, startTime = 0,
      timerInterval = None, lastEventTime = 0, watchdogInterval = None,
      retryDelay = INITIAL_RETRY_DELAY_MS, consecutiveErrors = 0, isRestarting = False,
      restartTimeout = None, resultDebounceTimer = None,
      timers = [], next_timer = 1, trace = []\<rparr>"

section \<open>The environment of one handler run\<close>

text \<open>
  Everything a handler reads from outside while it runs: the clock, whether the browser
  has a recognition constructor, the visibility of the document, the consumer's
  \<^verbatim>\<open>getLanguage\<close>, whether \<^verbatim>\<open>start()\<close> and \<^verbatim>\<open>abort()\<close> of a recognition object throw, and
  the consumer's callbacks. A callback is absent (\<open>None\<close>) or a function that, given the
  number of actions performed so far and its argument, returns or throws.
\<close>

datatype outcome = Returns | Throws

record env =
  now :: int
  speechAvailable :: bool
  documentHidden :: bool
  getLanguageOpt :: "jsstring option"
  startThrows :: "nat \<Rightarrow> bool"
  abortThrows :: "nat \<Rightarrow> bool"
  onBanner :: "(nat \<Rightarrow> banner \<Rightarrow> outcome) option"
  onStatus :: "(nat \<Rightarrow> bool \<Rightarrow> outcome) option"
  onTimer :: "(nat \<Rightarrow> jsstring \<Rightarrow> outcome) option"
  onTranscriptHtml :: "(nat \<Rightarrow> jsstring \<Rightarrow> outcome) option"
  onPartialText :: "(nat \<Rightarrow> jsstring \<Rightarrow> outcome) option"
  onDebug :: "(nat \<Rightarrow> int \<times> dbgmsg \<Rightarrow> outcome) option"
  persistScheduleAutosave :: "(nat \<Rightarrow> unit \<Rightarrow> outcome) option"

text \<open>
  A statement completes normally or abruptly (an exception is on its way up); either
  way the state it reached is kept.
\<close>

datatype 'a completion = Normal 'a | Abrupt 'a

fun state_of :: "'a completion \<Rightarrow> 'a" where
  "state_of (Normal s) = s"
| "state_of (Abrupt s) = s"

text \<open>\<^verbatim>\<open>cb && cb(v)\<close>: nothing happens without the callback; with it the call is made.\<close>

definition call_cb ::
  "(nat \<Rightarrow> 'a \<Rightarrow> outcome) option \<Rightarrow> 'a \<Rightarrow> action \<Rightarrow> engine \<Rightarrow> engine completion" where
  "call_cb cb v a s =
     (case cb of
        None \<Rightarrow> Normal s
      | Some f \<Rightarrow>
          (case f (length (trace s)) v of
             Returns \<Rightarrow> Normal (s\<lparr>trace := trace s @ [a]\<rparr>)
           | Throws \<Rightarrow> Abrupt (s\<lparr>trace := trace s @ [a]\<rparr>)))"

text \<open>\<^verbatim>\<open>try { body } catch (e) {}\<close>.\<close>

definition try_catch_empty :: "(engine \<Rightarrow> engine completion) \<Rightarrow> engine \<Rightarrow> engine completion" where
  "try_catch_empty body s = (case body s of Normal s' \<Rightarrow> Normal s' | Abrupt s' \<Rightarrow> Normal s')"

section \<open>Utilities\<close>

definition dbg_c :: "env \<Rightarrow> dbgmsg \<Rightarrow> engine \<Rightarrow> engine completion" where
  "dbg_c e msg = try_catch_empty (call_cb (onDebug e) (now e, msg) (Debug (now e) msg))"

definition dbg :: "env \<Rightarrow> dbgmsg \<Rightarrow> engine \<Rightarrow> engine" where
  "dbg e msg s = state_of (dbg_c e msg s)"

definition setBanner_c :: "env \<Rightarrow> banner \<Rightarrow> engine \<Rightarrow> engine completion" where
  "setBanner_c e msg = try_catch_empty (call_cb (onBanner e) msg (Banner msg))"

definition setBanner :: "env \<Rightarrow> banner \<Rightarrow> engine \<Rightarrow> engine" where
  "setBanner e msg s = state_of (setBanner_c e msg s)"

definition emitStatus_c :: "env \<Rightarrow> engine \<Rightarrow> engine completion" where
  "emitStatus_c e s =
     try_catch_empty (call_cb (onStatus e) (isRecording s) (Status (isRecording s))) s"

definition emitStatus :: "env \<Rightarrow> engine \<Rightarrow> engine" where
  "emitStatus e s = state_of (emitStatus_c e s)"

definition timer_text :: "env \<Rightarrow> engine \<Rightarrow> jsstring" where
  "timer_text e s = (if isRecording s then formatMMSS (now e - startTime s) else js ''00m 00s'')"

definition emitTimer_c :: "env \<Rightarrow> engine \<Rightarrow> engine completion" where
  "emitTimer_c e s =
     try_catch_empty (call_cb (onTimer e) (timer_text e s) (TimerText (timer_text e s))) s"

definition emitTimer :: "env \<Rightarrow> engine \<Rightarrow> engine" where
  "emitTimer e s = state_of (emitTimer_c e s)"

definition placeholder :: jsstring where
  "placeholder = js ''[A transcri'' @ [0xE7, 0xE3] @ js ''o vai aparecer aqui]''"

definition transcript_text :: "engine \<Rightarrow> jsstring" where
  "transcript_text s = (if transcribedAll s \<noteq> [] then transcribedAll s else placeholder)"

definition emitTranscript_c :: "env \<Rightarrow> engine \<Rightarrow> engine completion" where
  "emitTranscript_c e s =
     try_catch_empty
       (call_cb (onTranscriptHtml e) (transcript_text s) (TranscriptHtml (transcript_text s))) s"

definition emitTranscript :: "env \<Rightarrow> engine \<Rightarrow> engine" where
  "emitTranscript e s = state_of (emitTranscript_c e s)"

definition emitPartial_c :: "env \<Rightarrow> engine \<Rightarrow> engine completion" where
  "emitPartial_c e s =
     try_catch_empty
       (call_cb (onPartialText e) (currentPartial s) (PartialText (currentPartial s))) s"

definition emitPartial :: "env \<Rightarrow> engine \<Rightarrow> engine" where
  "emitPartial e s = state_of (emitPartial_c e s)"

definition scheduleAutosave_c :: "env \<Rightarrow> engine \<Rightarrow> engine completion" where
  "scheduleAutosave_c e = try_catch_empty (call_cb (persistScheduleAutosave e) () Autosave)"

definition scheduleAutosave :: "env \<Rightarrow> engine \<Rightarrow> engine" where
  "scheduleAutosave e s = state_of (scheduleAutosave_c e s)"

definition touchWatchdog :: "env \<Rightarrow> engine \<Rightarrow> engine" where
  "touchWatchdog e s = s\<lparr>lastEventTime := now e\<rparr>"

definition resetRetryState :: "engine \<Rightarrow> engine" where
  "resetRetryState s = s\<lparr>retryDelay := INITIAL_RETRY_DELAY_MS, consecutiveErrors := 0\<rparr>"

definition incrementRetryDelay :: "engine \<Rightarrow> engine" where
  "incrementRetryDelay s =
     s\<lparr>retryDelay := min (retryDelay s * RETRY_MULTIPLIER) MAX_RETRY_DELAY_MS\<rparr>"

section \<open>Timers\<close>

text \<open>
  \<^verbatim>\<open>setTimeout\<close> and \<^verbatim>\<open>setInterval\<close> register a callback under a fresh handle;
  \<^verbatim>\<open>clearTimeout\<close> and \<^verbatim>\<open>clearInterval\<close> remove the registration with that handle.
\<close>

definition add_timer :: "env \<Rightarrow> bool \<Rightarrow> callback \<Rightarrow> rat \<Rightarrow> engine \<Rightarrow> nat \<times> engine" where
  "add_timer e rep cb d s =
     (next_timer s,
      s\<lparr>timers := timers s @
           [\<lparr>tid = next_timer s, tcallback = cb, tdelay = d, tscheduled = now e, trepeat = rep\<rparr>],
        next_timer := Suc (next_timer s)\<rparr>)"

definition setTimeout :: "env \<Rightarrow> callback \<Rightarrow> rat \<Rightarrow> engine \<Rightarrow> nat \<times> engine" where
  "setTimeout e cb d s = add_timer e False cb d s"

definition setInterval :: "env \<Rightarrow> callback \<Rightarrow> rat \<Rightarrow> engine \<Rightarrow> nat \<times> engine" where
  "setInterval e cb d s = add_timer e True cb d s"

definition clearTimeout :: "nat \<Rightarrow> engine \<Rightarrow> engine" where
  "clearTimeout t s = s\<lparr>timers := filter (\<lambda>x. tid x \<noteq> t) (timers s)\<rparr>"

section \<open>Buffered results\<close>

definition BR :: jsstring where
  "BR = js ''<br>''"

definition processBufferedResults :: "env \<Rightarrow> engine \<Rightarrow> engine" where
  "processBufferedResults e s =
     (if pendingFinals s = [] then s
      else
        let combined = js_trim (js_join (js '' '') (pendingFinals s));
            s1 = s\<lparr>pendingFinals := []\<rparr>
        in if combined \<noteq> [] then
             let s2 = s1\<lparr>transcribedAll := transcribedAll s1 @ combined @ BR\<rparr>;
                 s3 = s2\<lparr>nLines := round_double (nLines s2 + 1)\<rparr>;
                 s4 = dbg e (DbgNewLine (take 50 combined) (length combined > 50)) s3;
                 s5 = (if nLines s4 > 50 then
                         s4\<lparr>transcribedAll :=
                               js_join BR (slice_last 50 (js_split BR (transcribedAll s4))),
                            nLines := 50\<rparr>
                       else s4);
                 s6 = emitTranscript e s5
             in scheduleAutosave e s6
           else s1)"

definition addFinalResult :: "env \<Rightarrow> jsstring \<Rightarrow> engine \<Rightarrow> engine" where
  "addFinalResult e text s =
     (if text = [] \<or> js_trim text = [] then s
      else
        let s1 = s\<lparr>pendingFinals := pendingFinals s @ [js_trim text]\<rparr>;
            s2 = (case resultDebounceTimer s1 of Some t \<Rightarrow> clearTimeout t s1 | None \<Rightarrow> s1);
            (t, s3) = setTimeout e FlushCb RESULT_DEBOUNCE_MS s2
        in s3\<lparr>resultDebounceTimer := Some t\<rparr>)"

definition flush_callback :: "env \<Rightarrow> engine \<Rightarrow> engine" where
  "flush_callback e s = processBufferedResults e (s\<lparr>resultDebounceTimer := None\<rparr>)"

section \<open>Recognition objects\<close>

definition lookup_session :: "engine \<Rightarrow> nat \<Rightarrow> session option" where
  "lookup_session s h = (if h < length (sessions s) then Some (sessions s ! h) else None)"

definition set_isStarted :: "nat \<Rightarrow> bool \<Rightarrow> engine \<Rightarrow> engine" where
  "set_isStarted h b s =
     (if h < length (sessions s)
      then s\<lparr>sessions := (sessions s)[h := (sessions s ! h)\<lparr>isStarted := b\<rparr>]\<rparr>
      else s)"

definition set_lang :: "nat \<Rightarrow> jsstring \<Rightarrow> engine \<Rightarrow> engine" where
  "set_lang h l s =
     (if h < length (sessions s)
      then s\<lparr>sessions := (sessions s)[h := (sessions s ! h)\<lparr>lang := l\<rparr>]\<rparr>
      else s)"

text \<open>\<^verbatim>\<open>ref && ref._isStarted\<close> for one of the two variables.\<close>

definition is_started :: "engine \<Rightarrow> nat option \<Rightarrow> bool" where
  "is_started s r =
     (case r of None \<Rightarrow> False
      | Some h \<Rightarrow> (case lookup_session s h of None \<Rightarrow> False | Some x \<Rightarrow> isStarted x))"

text \<open>
  \<^verbatim>\<open>rec.start()\<close> and \<^verbatim>\<open>rec.abort()\<close>: the command goes out, and the browser may throw
  (for instance \<^verbatim>\<open>InvalidStateError\<close> when the object is already started).
\<close>

definition session_start :: "env \<Rightarrow> nat \<Rightarrow> engine \<Rightarrow> engine completion" where
  "session_start e h s =
     (if startThrows e h then Abrupt (s\<lparr>trace := trace s @ [CmdStart h]\<rparr>)
      else Normal (s\<lparr>trace := trace s @ [CmdStart h]\<rparr>))"

definition session_abort :: "env \<Rightarrow> nat \<Rightarrow> engine \<Rightarrow> engine completion" where
  "session_abort e h s =
     (if abortThrows e h then Abrupt (s\<lparr>trace := trace s @ [CmdAbort h]\<rparr>)
      else Normal (s\<lparr>trace := trace s @ [CmdAbort h]\<rparr>))"

text \<open>\<^verbatim>\<open>try { if (ref && ref._isStarted) ref.abort(); } catch (e) {}\<close>.\<close>

definition abort_if_started :: "env \<Rightarrow> nat option \<Rightarrow> engine \<Rightarrow> engine" where
  "abort_if_started e r s =
     (case r of
        None \<Rightarrow> s
      | Some h \<Rightarrow>
          if is_started s r then state_of (try_catch_empty (session_abort e h) s) else s)"

text \<open>
  \<^verbatim>\<open>createRecognitionInstance\<close>: \<^verbatim>\<open>null\<close> without a constructor in the browser, a new
  object in the store otherwise. The constructor and \<^verbatim>\<open>getLanguage\<close> are taken to
  return.
\<close>

definition createRecognitionInstance :: "env \<Rightarrow> label \<Rightarrow> engine \<Rightarrow> nat option \<times> engine" where
  "createRecognitionInstance e l s =
     (if \<not> speechAvailable e then (None, s)
      else
        let lang0 = (case getLanguageOpt e of
                       None \<Rightarrow> js ''pt-BR''
                     | Some v \<Rightarrow> if v = [] then js ''pt-BR'' else v);
            r = \<lparr>lang = (if lang0 = js ''pt'' then js ''pt-BR'' else js ''en-US''),
                 slabel = l, isStarted = False\<rparr>
        in (Some (length (sessions s)), s\<lparr>sessions := sessions s @ [r]\<rparr>))"

section \<open>Restart\<close>

definition scheduleRestart :: "env \<Rightarrow> label \<Rightarrow> engine \<Rightarrow> engine" where
  "scheduleRestart e failedLabel s =
     (if isRestarting s \<or> \<not> shouldBeRecording s then s
      else
        let s1 = s\<lparr>isRestarting := True\<rparr>;
            s2 = (case restartTimeout s1 of Some t \<Rightarrow> clearTimeout t s1 | None \<Rightarrow> s1);
            (t, s3) = setTimeout e (RestartCb failedLabel) (retryDelay s2) s2
        in s3\<lparr>restartTimeout := Some t\<rparr>)"

definition handleTooManyErrors :: "env \<Rightarrow> engine \<Rightarrow> engine" where
  "handleTooManyErrors e s =
     (let s1 = dbg e (DbgTooManyErrors (consecutiveErrors s)) s;
          s2 = setBanner e BannerTooManyErrors s1;
          s3 = s2\<lparr>consecutiveErrors := 0\<rparr>;
          s4 = s3\<lparr>retryDelay := INITIAL_RETRY_DELAY_MS\<rparr>
      in snd (setTimeout e CooldownCb ERROR_COOLDOWN_MS s4))"

text \<open>The \<^verbatim>\<open>catch\<close> block shared by the two restart functions.\<close>

definition restart_failed :: "env \<Rightarrow> dbgmsg \<Rightarrow> label \<Rightarrow> engine \<Rightarrow> engine" where
  "restart_failed e msg l s =
     (let s1 = dbg e msg s;
          s2 = s1\<lparr>consecutiveErrors := Suc (consecutiveErrors s1)\<rparr>;
          s3 = incrementRetryDelay s2
      in if consecutiveErrors s3 < MAX_CONSECUTIVE_ERRORS then scheduleRestart e l s3
         else handleTooManyErrors e s3)"

definition performSingleRestart :: "env \<Rightarrow> engine \<Rightarrow> engine" where
  "performSingleRestart e s =
     (if \<not> shouldBeRecording s then s
      else
        let s1 = dbg e DbgSingleRestart s;
            s2 = abort_if_started e (recognition s1) s1;
            s3 = (case recognition s2 of
                    None \<Rightarrow> (let (r, s') = createRecognitionInstance e Primary s2
                              in s'\<lparr>recognition := r\<rparr>)
                  | Some h \<Rightarrow> s2)
        in case recognition s3 of
             None \<Rightarrow> restart_failed e DbgRestartFailed Primary s3
           | Some h \<Rightarrow>
               (case session_start e h s3 of
                  Normal s4 \<Rightarrow> s4
                | Abrupt s4 \<Rightarrow> restart_failed e DbgRestartFailed Primary s4))"

definition performDualRestart :: "env \<Rightarrow> label \<Rightarrow> engine \<Rightarrow> engine" where
  "performDualRestart e failedLabel s =
     (if \<not> shouldBeRecording s then s
      else
        let useBackup = (failedLabel = Primary);
            targetLabel = (if useBackup then Backup else Primary);
            s1 = dbg e (DbgDualRestart targetLabel) s;
            s2 = (if useBackup \<and> recognitionBackup s1 = None then
                    (let (r, s') = createRecognitionInstance e Backup s1
                     in s'\<lparr>recognitionBackup := r\<rparr>)
                  else if \<not> useBackup \<and> recognition s1 = None then
                    (let (r, s') = createRecognitionInstance e Primary s1
                     in s'\<lparr>recognition := r\<rparr>)
                  else s1);
            target = (if useBackup then recognitionBackup s2 else recognition s2)
        in case target of
             None \<Rightarrow> handleTooManyErrors e (dbg e DbgCreateFailed s2)
           | Some h \<Rightarrow>
               (case session_start e h s2 of
                  Normal s3 \<Rightarrow> dbg e (DbgActivated targetLabel) (s3\<lparr>activeRecognition := targetLabel\<rparr>)
                | Abrupt s3 \<Rightarrow> restart_failed e (DbgActivateFailed targetLabel) targetLabel s3))"

text \<open>The callback that \<^verbatim>\<open>scheduleRestart\<close> hands to \<^verbatim>\<open>setTimeout\<close>.\<close>

definition restart_callback :: "env \<Rightarrow> label \<Rightarrow> engine \<Rightarrow> engine" where
  "restart_callback e failedLabel s =
     (let s1 = s\<lparr>restartTimeout := None\<rparr>;
          s2 = s1\<lparr>isRestarting := False\<rparr>
      in if \<not> shouldBeRecording s2 then s2
         else if USE_DUAL_RECOGNITION then performDualRestart e failedLabel s2
         else performSingleRestart e s2)"

text \<open>The callback that \<^verbatim>\<open>handleTooManyErrors\<close> hands to \<^verbatim>\<open>setTimeout\<close>.\<close>

definition cooldown_callback :: "env \<Rightarrow> engine \<Rightarrow> engine" where
  "cooldown_callback e s =
     (if shouldBeRecording s then
        performSingleRestart e (setBanner e BannerResuming (dbg e DbgResuming s))
      else s)"

section \<open>Event handlers of a recognition object\<close>

text \<open>
  Each handler is a closure over the object \<open>h\<close> it was installed on (\<^verbatim>\<open>rec\<close>) and the
  \<^verbatim>\<open>label\<close> that object was created with.
\<close>

definition onstart :: "env \<Rightarrow> nat \<Rightarrow> label \<Rightarrow> engine \<Rightarrow> engine" where
  "onstart e h l s =
     (let s1 = dbg e (DbgStarted l) s;
          s2 = set_isStarted h True s1;
          s3 = touchWatchdog e s2;
          s4 = resetRetryState s3
      in if shouldBeRecording s4 \<and> \<not> isRecording s4
         then emitStatus e (s4\<lparr>isRecording := True\<rparr>)
         else s4)"

text \<open>
  \<^verbatim>\<open>onaudiostart\<close>, \<^verbatim>\<open>onsoundstart\<close>, \<^verbatim>\<open>onspeechstart\<close>, \<^verbatim>\<open>onspeechend\<close>, \<^verbatim>\<open>onsoundend\<close>
  and \<^verbatim>\<open>onaudioend\<close> differ in their debug line only.
\<close>

definition on_liveness :: "env \<Rightarrow> dbgmsg \<Rightarrow> engine \<Rightarrow> engine" where
  "on_liveness e msg s = touchWatchdog e (dbg e msg s)"

definition onend :: "env \<Rightarrow> nat \<Rightarrow> label \<Rightarrow> engine \<Rightarrow> engine" where
  "onend e h l s =
     (let s1 = dbg e (DbgEnded l) s;
          s2 = set_isStarted h False s1;
          s3 = touchWatchdog e s2
      in if shouldBeRecording s3 \<and> \<not> isRestarting s3 then
           scheduleRestart e l (dbg e (DbgAutoRestart l (retryDelay s3)) s3)
         else if \<not> shouldBeRecording s3 then emitStatus e (s3\<lparr>isRecording := False\<rparr>)
         else s3)"

text \<open>The check that follows the \<^verbatim>\<open>switch\<close> of \<^verbatim>\<open>onerror\<close>.\<close>

definition check_error_limit :: "env \<Rightarrow> engine \<Rightarrow> engine" where
  "check_error_limit e s =
     (if consecutiveErrors s \<ge> MAX_CONSECUTIVE_ERRORS then handleTooManyErrors e s else s)"

definition onerror :: "env \<Rightarrow> label \<Rightarrow> jsstring \<Rightarrow> engine \<Rightarrow> engine" where
  "onerror e l err s =
     (let s1 = dbg e (DbgError l err) s;
          s2 = touchWatchdog e s1
      in if err = js ''no-speech'' then dbg e (DbgNoSpeech l) s2
         else if err = js ''aborted'' then dbg e (DbgAborted l) s2
         else if err = js ''audio-capture'' then
           (let s3 = s2\<lparr>consecutiveErrors := Suc (consecutiveErrors s2)\<rparr>;
                s4 = setBanner e BannerAudioCapture s3;
                s5 = (if consecutiveErrors s4 \<ge> MAX_CONSECUTIVE_ERRORS
                      then handleTooManyErrors e s4 else s4)
            in check_error_limit e s5)
         else if err = js ''not-allowed'' then
           (let s3 = setBanner e BannerNotAllowed s2;
                s4 = s3\<lparr>shouldBeRecording := False\<rparr>;
                s5 = s4\<lparr>isRecording := False\<rparr>
            in emitStatus e s5)
         else if err = js ''network'' then
           (let s3 = s2\<lparr>consecutiveErrors := Suc (consecutiveErrors s2)\<rparr>;
                s4 = dbg e (DbgNetwork l) s3;
                s5 = setBanner e BannerNetwork s4;
                s6 = incrementRetryDelay s5
            in check_error_limit e s6)
         else if err = js ''service-not-allowed'' then
           (let s3 = setBanner e BannerServiceNotAllowed s2;
                s4 = s3\<lparr>shouldBeRecording := False\<rparr>;
                s5 = s4\<lparr>isRecording := False\<rparr>
            in emitStatus e s5)
         else
           (let s3 = s2\<lparr>consecutiveErrors := Suc (consecutiveErrors s2)\<rparr>;
                s4 = dbg e (DbgUnknownError l err) s3;
                s5 = incrementRetryDelay s4
            in check_error_limit e s5))"

text \<open>
  A result event: \<^verbatim>\<open>resultIndex\<close> and, for every entry of \<^verbatim>\<open>results\<close>, its \<^verbatim>\<open>isFinal\<close>
  flag and the transcript of its first alternative. The loop of \<^verbatim>\<open>onresult\<close> carries
  the state and \<^verbatim>\<open>interimTranscript\<close>.
\<close>

record result_event =
  resultIndex :: nat
  results :: "(bool \<times> jsstring) list"

fun result_loop :: "env \<Rightarrow> (bool \<times> jsstring) list \<Rightarrow> engine \<times> jsstring \<Rightarrow> engine \<times> jsstring" where
  "result_loop e [] (s, interim) = (s, interim)"
| "result_loop e ((isFinal, transcript) # rs) (s, interim) =
     (if isFinal then result_loop e rs ((addFinalResult e transcript s)\<lparr>currentPartial := []\<rparr>, interim)
      else result_loop e rs (s, interim @ transcript))"

definition onresult :: "env \<Rightarrow> result_event \<Rightarrow> engine \<Rightarrow> engine" where
  "onresult e ev s =
     (let s1 = touchWatchdog e s;
          s2 = resetRetryState s1;
          (s3, interimTranscript) = result_loop e (drop (resultIndex ev) (results ev)) (s2, [])
      in if interimTranscript \<noteq> [] then emitPartial e (s3\<lparr>currentPartial := interimTranscript\<rparr>)
         else if currentPartial s3 \<noteq> [] then emitPartial e (s3\<lparr>currentPartial := []\<rparr>)
         else s3)"

section \<open>Watchdog\<close>

definition watchdog_callback :: "env \<Rightarrow> engine \<Rightarrow> engine" where
  "watchdog_callback e s =
     (if \<not> shouldBeRecording s then s
      else
        let elapsed = now e - lastEventTime s
        in if elapsed > WATCHDOG_TIMEOUT_MS then
             let s1 = dbg e (DbgWatchdog elapsed) s;
                 s2 = abort_if_started e (recognition s1) s1;
                 s3 = abort_if_started e (recognitionBackup s2) s2
             in if \<not> isRestarting s3 then scheduleRestart e (activeRecognition s3) s3 else s3
           else s)"

definition startWatchdog :: "env \<Rightarrow> engine \<Rightarrow> engine" where
  "startWatchdog e s =
     (case watchdogInterval s of
        Some t \<Rightarrow> s
      | None \<Rightarrow>
          let s1 = touchWatchdog e s;
              (t, s2) = setInterval e WatchdogCb WATCHDOG_CHECK_INTERVAL_MS s1
          in s2\<lparr>watchdogInterval := Some t\<rparr>)"

definition stopWatchdog :: "engine \<Rightarrow> engine" where
  "stopWatchdog s =
     (case watchdogInterval s of
        Some t \<Rightarrow> (clearTimeout t s)\<lparr>watchdogInterval := None\<rparr>
      | None \<Rightarrow> s)"

section \<open>Page visibility\<close>

definition handleVisibilityChange :: "env \<Rightarrow> engine \<Rightarrow> engine" where
  "handleVisibilityChange e s =
     (if documentHidden e then dbg e DbgHidden s
      else
        let s1 = dbg e DbgVisible s
        in if shouldBeRecording s1 then
             let primaryOK = is_started s1 (recognition s1);
                 backupOK = is_started s1 (recognitionBackup s1)
             in if \<not> primaryOK \<and> \<not> backupOK then
                  performSingleRestart e (touchWatchdog e (dbg e DbgNoActiveInstance s1))
                else s1
           else s1)"

section \<open>Public interface\<close>

definition init :: "env \<Rightarrow> engine \<Rightarrow> bool \<times> engine" where
  "init e s =
     (if \<not> speechAvailable e then
        (False, setBanner e BannerNoWebSpeech (dbg e DbgNoWebSpeech s))
      else
        let s1 = dbg e DbgWebSpeechAvailable s;
            s2 = dbg e DbgConfig s1;
            s3 = s2\<lparr>trace := trace s2 @ [AddVisibilityListener]\<rparr>;
            s4 = emitTranscript e s3;
            s5 = emitStatus e s4;
            s6 = emitTimer e s5
        in (True, s6))"

text \<open>
  The display timer of \<^verbatim>\<open>start()\<close>: an interval left from before is cleared and a new
  one is set.
\<close>

definition start_ui_timer :: "env \<Rightarrow> engine \<Rightarrow> engine" where
  "start_ui_timer e s =
     (let s1 = (case timerInterval s of Some t \<Rightarrow> clearTimeout t s | None \<Rightarrow> s);
          (t, s2) = setInterval e UiTimerCb 100 s1
      in s2\<lparr>timerInterval := Some t\<rparr>)"

text \<open>
  \<^verbatim>\<open>start()\<close> from the point where the primary object \<open>h\<close> exists: the backup object,
  the flags, the two intervals, the retry state and the call of \<^verbatim>\<open>recognition.start()\<close>
  with its \<^verbatim>\<open>catch\<close> block.
\<close>

definition start_recording :: "env \<Rightarrow> nat \<Rightarrow> engine \<Rightarrow> bool \<times> engine" where
  "start_recording e h s1 =
     (let s2 = (if USE_DUAL_RECOGNITION \<and> recognitionBackup s1 = None then
                  (let (r, s') = createRecognitionInstance e Backup s1
                   in s'\<lparr>recognitionBackup := r\<rparr>)
                else s1);
          s3 = s2\<lparr>shouldBeRecording := True\<rparr>;
          s4 = s3\<lparr>isRecording := True\<rparr>;
          s5 = s4\<lparr>startTime := now e\<rparr>;
          s6 = s5\<lparr>activeRecognition := Primary\<rparr>;
          s7 = start_ui_timer e s6;
          s8 = startWatchdog e s7;
          s9 = resetRetryState s8
      in case session_start e h s9 of
           Normal s10 \<Rightarrow>
             (True, scheduleAutosave e (emitStatus e (setBanner e BannerStarted s10)))
         | Abrupt s10 \<Rightarrow>
             (let s11 = dbg e DbgStartFailed s10;
                  s12 = setBanner e BannerStartFailed s11;
                  s13 = s12\<lparr>shouldBeRecording := False\<rparr>;
                  s14 = s13\<lparr>isRecording := False\<rparr>
              in (False, emitStatus e s14)))"

definition start :: "env \<Rightarrow> engine \<Rightarrow> bool \<times> engine" where
  "start e s =
     (if shouldBeRecording s then (False, dbg e DbgAlreadyRecording s)
      else if \<not> speechAvailable e then (False, setBanner e BannerNotSupported s)
      else
        let s1 = (case recognition s of
                    None \<Rightarrow> (let (r, s') = createRecognitionInstance e Primary s
                              in s'\<lparr>recognition := r\<rparr>)
                  | Some h \<Rightarrow> s)
        in case recognition s1 of
             None \<Rightarrow> (False, setBanner e BannerCreateFailed s1)
           | Some h \<Rightarrow> start_recording e h s1)"

definition stop :: "env \<Rightarrow> engine \<Rightarrow> engine" where
  "stop e s =
     (if \<not> shouldBeRecording s then s
      else
        let s1 = dbg e DbgStopping s;
            s2 = s1\<lparr>shouldBeRecording := False\<rparr>;
            s3 = s2\<lparr>isRecording := False\<rparr>;
            s4 = (case restartTimeout s3 of
                    Some t \<Rightarrow> (clearTimeout t s3)\<lparr>restartTimeout := None\<rparr>
                  | None \<Rightarrow> s3);
            s5 = s4\<lparr>isRestarting := False\<rparr>;
            s6 = stopWatchdog s5;
            s7 = abort_if_started e (recognition s6) s6;
            s8 = abort_if_started e (recognitionBackup s7) s7;
            s9 = (case resultDebounceTimer s8 of
                    Some t \<Rightarrow> (clearTimeout t s8)\<lparr>resultDebounceTimer := None\<rparr>
                  | None \<Rightarrow> s8);
            s10 = processBufferedResults e s9;
            s11 = (case timerInterval s10 of
                     Some t \<Rightarrow> (clearTimeout t s10)\<lparr>timerInterval := None\<rparr>
                   | None \<Rightarrow> s10);
            s12 = s11\<lparr>currentPartial := []\<rparr>;
            s13 = emitPartial e s12;
            s14 = emitStatus e s13;
            s15 = emitTimer e s14;
            s16 = scheduleAutosave e s15
        in setBanner e BannerStopped s16)"

definition clearTranscript :: "env \<Rightarrow> engine \<Rightarrow> engine" where
  "clearTranscript e s =
     (let s1 = s\<lparr>transcribedAll := []\<rparr>;
          s2 = s1\<lparr>nLines := 0\<rparr>;
          s3 = s2\<lparr>currentPartial := []\<rparr>;
          s4 = s3\<lparr>pendingFinals := []\<rparr>;
          s5 = emitPartial e s4;
          s6 = emitTranscript e s5
      in scheduleAutosave e s6)"

definition setTranscriptHtml :: "jsstring \<Rightarrow> engine \<Rightarrow> engine" where
  "setTranscriptHtml html s = s\<lparr>transcribedAll := html\<rparr>"

definition getTranscriptHtml :: "engine \<Rightarrow> jsstring" where
  "getTranscriptHtml s = transcribedAll s"

definition getNLines :: "engine \<Rightarrow> rat" where
  "getNLines s = nLines s"

text \<open>\<open>n\<close> is \<^verbatim>\<open>Number(v)\<close>, the conversion the language applies to the argument.\<close>

definition setNLines :: "jsnum \<Rightarrow> engine \<Rightarrow> engine" where
  "setNLines n s =
     (if isFinite n \<and> ge_zero n then (case n of Num q \<Rightarrow> s\<lparr>nLines := q\<rparr> | _ \<Rightarrow> s) else s)"

definition getLanguage :: "env \<Rightarrow> engine \<Rightarrow> jsstring" where
  "getLanguage e s =
     (case recognition s of
        Some h \<Rightarrow> (case lookup_session s h of Some r \<Rightarrow> lang r | None \<Rightarrow> [])
      | None \<Rightarrow>
          (case getLanguageOpt e of
             None \<Rightarrow> js ''pt-BR''
           | Some v \<Rightarrow> if v = [] then js ''pt-BR'' else v))"

definition setLanguage :: "env \<Rightarrow> jsstring \<Rightarrow> engine \<Rightarrow> engine" where
  "setLanguage e l s =
     (let newLang = (if l = js ''pt'' then js ''pt-BR'' else js ''en-US'');
          s1 = (case recognition s of Some h \<Rightarrow> set_lang h newLang s | None \<Rightarrow> s);
          s2 = (case recognitionBackup s1 of Some h \<Rightarrow> set_lang h newLang s1 | None \<Rightarrow> s1)
      in dbg e (DbgLanguage newLang) s2)"

definition destroy :: "env \<Rightarrow> engine \<Rightarrow> engine" where
  "destroy e s =
     (let s1 = stop e s;
          s2 = s1\<lparr>trace := trace s1 @ [RemoveVisibilityListener]\<rparr>;
          s3 = s2\<lparr>recognition := None\<rparr>
      in s3\<lparr>recognitionBackup := None\<rparr>)"

section \<open>The bridge as a transition system\<close>

definition run_callback :: "env \<Rightarrow> callback \<Rightarrow> engine \<Rightarrow> engine" where
  "run_callback e cb s =
     (case cb of
        FlushCb \<Rightarrow> flush_callback e s
      | RestartCb l \<Rightarrow> restart_callback e l s
      | CooldownCb \<Rightarrow> cooldown_callback e s
      | WatchdogCb \<Rightarrow> watchdog_callback e s
      | UiTimerCb \<Rightarrow> emitTimer e s)"

text \<open>
  A timer fires only while it is registered; a timeout is gone once it has fired, an
  interval stays.
\<close>

definition fire :: "env \<Rightarrow> nat \<Rightarrow> engine \<Rightarrow> engine" where
  "fire e t s =
     (case find (\<lambda>x. tid x = t) (timers s) of
        None \<Rightarrow> s
      | Some x \<Rightarrow>
          run_callback e (tcallback x)
            (if trepeat x then s else s\<lparr>timers := filter (\<lambda>y. tid y \<noteq> t) (timers s)\<rparr>))"

datatype event =
    CallInit | CallStart | CallStop | CallClearTranscript
  | CallSetTranscriptHtml jsstring | CallSetNLines jsnum | CallSetLanguage jsstring
  | CallDestroy
  | TimerFires nat
  | SessionStart nat | SessionEnd nat | SessionError nat jsstring
  | SessionResult nat result_event
  | SessionAudioStart nat | SessionSoundStart nat | SessionSpeechStart nat
  | SessionSpeechEnd nat | SessionSoundEnd nat | SessionAudioEnd nat
  | VisibilityChange

text \<open>An event of a recognition object reaches the handlers of that object.\<close>

definition on_session :: "nat \<Rightarrow> (label \<Rightarrow> engine \<Rightarrow> engine) \<Rightarrow> engine \<Rightarrow> engine" where
  "on_session h handler s =
     (case lookup_session s h of None \<Rightarrow> s | Some r \<Rightarrow> handler (slabel r) s)"

text \<open>
  One call of the interface, one timer that fires or one event of the page. The page
  delivers \<^verbatim>\<open>visibilitychange\<close> only while the listener is registered, between
  \<^verbatim>\<open>init()\<close> and \<^verbatim>\<open>destroy()\<close>; \<open>step\<close> takes the event whenever it is given, so the runs
  of the bridge are among the runs of \<open>step\<close>.
\<close>

fun step :: "engine \<Rightarrow> env \<times> event \<Rightarrow> engine" where
  "step s (e, CallInit) = snd (init e s)"
| "step s (e, CallStart) = snd (start e s)"
| "step s (e, CallStop) = stop e s"
| "step s (e, CallClearTranscript) = clearTranscript e s"
| "step s (e, CallSetTranscriptHtml h) = setTranscriptHtml h s"
| "step s (e, CallSetNLines n) = setNLines n s"
| "step s (e, CallSetLanguage l) = setLanguage e l s"
| "step s (e, CallDestroy) = destroy e s"
| "step s (e, TimerFires t) = fire e t s"
| "step s (e, SessionStart h) = on_session h (onstart e h) s"
| "step s (e, SessionEnd h) = on_session h (onend e h) s"
| "step s (e, SessionError h err) = on_session h (\<lambda>l. onerror e l err) s"
| "step s (e, SessionResult h ev) = on_session h (\<lambda>l. onresult e ev) s"
| "step s (e, SessionAudioStart h) = on_session h (\<lambda>l. on_liveness e (DbgAudioStart l)) s"
| "step s (e, SessionSoundStart h) = on_session h (\<lambda>l. on_liveness e (DbgSoundStart l)) s"
| "step s (e, SessionSpeechStart h) = on_session h (\<lambda>l. on_liveness e (DbgSpeechStart l)) s"
| "step s (e, SessionSpeechEnd h) = on_session h (\<lambda>l. on_liveness e (DbgSpeechEnd l)) s"
| "step s (e, SessionSoundEnd h) = on_session h (\<lambda>l. on_liveness e (DbgSoundEnd l)) s"
| "step s (e, SessionAudioEnd h) = on_session h (\<lambda>l. on_liveness e (DbgAudioEnd l)) s"
| "step s (e, VisibilityChange) = handleVisibilityChange e s"

definition run :: "engine \<Rightarrow> (env \<times> event) list \<Rightarrow> engine" where
  "run s evs = foldl step s evs"

section \<open>Derived notions\<close>

text \<open>What a flush would append: the queued fragments joined with one space, trimmed.\<close>

definition combined :: "engine \<Rightarrow> jsstring" where
  "combined s = js_trim (js_join (js '' '') (pendingFinals s))"


text \<open>The transcript text that holds exactly the lines \<open>ls\<close>, each closed by \<^verbatim>\<open><br>\<close>.\<close>

definition transcript_of_lines :: "jsstring list \<Rightarrow> jsstring" where
  "transcript_of_lines ls = concat (map (\<lambda>l. l @ BR) ls)"








text \<open>
  The backoff delay lies between its floor and its ceiling, and no registered timer
  waits longer than the ceiling.
\<close>

definition delay_in_range :: "engine \<Rightarrow> bool" where
  "delay_in_range s \<longleftrightarrow>
     INITIAL_RETRY_DELAY_MS \<le> retryDelay s \<and> retryDelay s \<le> MAX_RETRY_DELAY_MS \<and>
     list_all (\<lambda>x. tdelay x \<le> MAX_RETRY_DELAY_MS) (timers s)"

text \<open>The registered timers that \<^verbatim>\<open>scheduleRestart\<close> has set.\<close>

fun is_restart :: "callback \<Rightarrow> bool" where
  "is_restart (RestartCb l) = True"
| "is_restart cb = False"

definition restart_timers :: "engine \<Rightarrow> timer list" where
  "restart_timers s = filter (\<lambda>x. is_restart (tcallback x)) (timers s)"

text \<open>
  Bookkeeping of the timers. The handles the bridge keeps (\<^verbatim>\<open>resultDebounceTimer\<close>,
  \<^verbatim>\<open>restartTimeout\<close>, \<^verbatim>\<open>watchdogInterval\<close>, \<^verbatim>\<open>timerInterval\<close>) are distinct and
  older than the next handle; every registered flush, restart, watchdog and display timer is
  the one its handle names, and a handle names a registered timer; intervals repeat,
  timeouts do not. \<^verbatim>\<open>isRestarting\<close> is set exactly while \<^verbatim>\<open>restartTimeout\<close> holds a handle.
\<close>

fun opt_list :: "'a option \<Rightarrow> 'a list" where
  "opt_list None = []"
| "opt_list (Some x) = [x]"

definition kind_ids :: "(callback \<Rightarrow> bool) \<Rightarrow> timer list \<Rightarrow> nat list" where
  "kind_ids kind ts = map tid (filter (\<lambda>x. kind (tcallback x)) ts)"

definition handles :: "engine \<Rightarrow> nat list" where
  "handles s =
     opt_list (resultDebounceTimer s) @ opt_list (restartTimeout s) @
     opt_list (watchdogInterval s) @ opt_list (timerInterval s)"

definition timers_ok :: "engine \<Rightarrow> bool" where
  "timers_ok s \<longleftrightarrow>
     distinct (map tid (timers s)) \<and>
     list_all (\<lambda>x. tid x < next_timer s) (timers s) \<and>
     list_all (\<lambda>x. trepeat x = (tcallback x = WatchdogCb \<or> tcallback x = UiTimerCb)) (timers s) \<and>
     distinct (handles s) \<and>
     list_all (\<lambda>t. t < next_timer s) (handles s) \<and>
     kind_ids (\<lambda>c. c = FlushCb) (timers s) = opt_list (resultDebounceTimer s) \<and>
     kind_ids is_restart (timers s) = opt_list (restartTimeout s) \<and>
     kind_ids (\<lambda>c. c = WatchdogCb) (timers s) = opt_list (watchdogInterval s) \<and>
     kind_ids (\<lambda>c. c = UiTimerCb) (timers s) = opt_list (timerInterval s)"

definition flag_ok :: "engine \<Rightarrow> bool" where
  "flag_ok s \<longleftrightarrow> (isRestarting s \<longleftrightarrow> restartTimeout s \<noteq> None)"

definition timers_tracked :: "engine \<Rightarrow> bool" where
  "timers_tracked s \<longleftrightarrow> timers_ok s \<and> flag_ok s"


section \<open>Sample environments\<close>

text \<open>
  Three consumers: one that supplies no callback, one whose callbacks all return, and
  one whose callbacks all throw. \<open>returning e\<close> is \<open>e\<close> with every supplied callback
  replaced by one that returns.
\<close>

definition silent_env :: "int \<Rightarrow> env" where
  "silent_env t =
     \<lparr>now = t, speechAvailable = True, documentHidden = False,
      getLanguageOpt = Some (js ''pt''), startThrows = (\<lambda>h. False), abortThrows = (\<lambda>h. False),
      onBanner = None, onStatus = None, onTimer = None, onTranscriptHtml = None,
      onPartialText = None, onDebug = None, persistScheduleAutosave = None\<rparr>"

definition listening_env :: "int \<Rightarrow> env" where
  "listening_env t =
     (silent_env t)
       \<lparr>onBanner := Some (\<lambda>n v. Returns), onStatus := Some (\<lambda>n v. Returns),
        onTimer := Some (\<lambda>n v. Returns), onTranscriptHtml := Some (\<lambda>n v. Returns),
        onPartialText := Some (\<lambda>n v. Returns), onDebug := Some (\<lambda>n v. Returns),
        persistScheduleAutosave := Some (\<lambda>n v. Returns)\<rparr>"

definition throwing_env :: "int \<Rightarrow> env" where
  "throwing_env t =
     (silent_env t)
       \<lparr>onBanner := Some (\<lambda>n v. Throws), onStatus := Some (\<lambda>n v. Throws),
        onTimer := Some (\<lambda>n v. Throws), onTranscriptHtml := Some (\<lambda>n v. Throws),
        onPartialText := Some (\<lambda>n v. Throws), onDebug := Some (\<lambda>n v. Throws),
        persistScheduleAutosave := Some (\<lambda>n v. Throws)\<rparr>"

definition returning :: "env \<Rightarrow> env" where
  "returning e =
     e\<lparr>onBanner := map_option (\<lambda>f n v. Returns) (onBanner e),
       onStatus := map_option (\<lambda>f n v. Returns) (onStatus e),
       onTimer := map_option (\<lambda>f n v. Returns) (onTimer e),
       onTranscriptHtml := map_option (\<lambda>f n v. Returns) (onTranscriptHtml e),
       onPartialText := map_option (\<lambda>f n v. Returns) (onPartialText e),
       onDebug := map_option (\<lambda>f n v. Returns) (onDebug e),
       persistScheduleAutosave := map_option (\<lambda>f n v. Returns) (persistScheduleAutosave e)\<rparr>"

text \<open>The bridge right after a successful \<^verbatim>\<open>start()\<close> at time 0.\<close>

definition started :: engine where
  "started = snd (start (silent_env 0) initial)"

text \<open>
  The \<open>k\<close>-th utterance after \<^verbatim>\<open>start()\<close>: a final result \<^verbatim>\<open>a\<close> of the primary session,
  then the debounce timer that \<^verbatim>\<open>addFinalResult\<close> registered for it fires. \<open>spoken n ls\<close>
  is the bridge after \<open>n\<close> of them, with the lines \<open>ls\<close> in its transcript.
\<close>

definition utterance :: "nat \<Rightarrow> (env \<times> event) list" where
  "utterance k =
     [(silent_env 0, SessionResult 0 \<lparr>resultIndex = 0, results = [(True, js ''a'')]\<rparr>),
      (silent_env 0, TimerFires (3 + k))]"

definition utterances :: "nat \<Rightarrow> (env \<times> event) list" where
  "utterances n = concat (map utterance [0..<n])"

definition spoken :: "nat \<Rightarrow> jsstring list \<Rightarrow> engine" where
  "spoken n ls = started\<lparr>transcribedAll := transcript_of_lines ls, nLines := of_nat (min n 50),
     next_timer := 3 + n\<rparr>"




text \<open>
  Ten \<^verbatim>\<open>network\<close> errors of the primary session in a row, then the end of that
  session, then the restart timer 100 ms later, then the cooldown timer.
\<close>

definition network_error :: "env \<times> event" where
  "network_error = (silent_env 1000, SessionError 0 (js ''network''))"

definition error_storm :: engine where
  "error_storm = run started [network_error, network_error, network_error, network_error, network_error,
      network_error, network_error, network_error, network_error, network_error]"

definition storm_ended :: engine where
  "storm_ended = run error_storm [(silent_env 1000, SessionEnd 0)]"

definition storm_restarted :: engine where
  "storm_restarted = run storm_ended [(silent_env 1100, TimerFires 4)]"

definition storm_cooled :: engine where
  "storm_cooled = run storm_restarted [(silent_env 4000, TimerFires 3)]"










text \<open>The actions a guarded call \<^verbatim>\<open>cb && cb(v)\<close> adds to the trace.\<close>

definition emitted :: "'a option \<Rightarrow> action \<Rightarrow> action list" where
  "emitted cb a = (case cb of None \<Rightarrow> [] | Some f \<Rightarrow> [a])"

section \<open>The callback wrappers\<close>

lemma wrapper_state:
  "state_of (try_catch_empty (call_cb cb v a) s) = s\<lparr>trace := trace s @ emitted cb a\<rparr>"
  by (simp add: try_catch_empty_def call_cb_def emitted_def split: option.split outcome.split)

lemma dbg_eq: "dbg e m s = s\<lparr>trace := trace s @ emitted (onDebug e) (Debug (now e) m)\<rparr>"
  by (simp add: dbg_def dbg_c_def wrapper_state)

lemma setBanner_eq: "setBanner e m s = s\<lparr>trace := trace s @ emitted (onBanner e) (Banner m)\<rparr>"
  by (simp add: setBanner_def setBanner_c_def wrapper_state)

lemma emitStatus_eq:
  "emitStatus e s = s\<lparr>trace := trace s @ emitted (onStatus e) (Status (isRecording s))\<rparr>"
  by (simp add: emitStatus_def emitStatus_c_def wrapper_state)

lemma emitTimer_eq:
  "emitTimer e s = s\<lparr>trace := trace s @ emitted (onTimer e) (TimerText (timer_text e s))\<rparr>"
  by (simp add: emitTimer_def emitTimer_c_def wrapper_state)

lemma emitTranscript_eq:
  "emitTranscript e s =
     s\<lparr>trace := trace s @ emitted (onTranscriptHtml e) (TranscriptHtml (transcript_text s))\<rparr>"
  by (simp add: emitTranscript_def emitTranscript_c_def wrapper_state)

lemma emitPartial_eq:
  "emitPartial e s =
     s\<lparr>trace := trace s @ emitted (onPartialText e) (PartialText (currentPartial s))\<rparr>"
  by (simp add: emitPartial_def emitPartial_c_def wrapper_state)

lemma scheduleAutosave_eq:
  "scheduleAutosave e s = s\<lparr>trace := trace s @ emitted (persistScheduleAutosave e) Autosave\<rparr>"
  by (simp add: scheduleAutosave_def scheduleAutosave_c_def wrapper_state)

lemmas wrapper_eqs = dbg_eq setBanner_eq emitStatus_eq emitTimer_eq emitTranscript_eq
  emitPartial_eq scheduleAutosave_eq

lemma timer_text_trace [simp]: "timer_text e (s\<lparr>trace := t\<rparr>) = timer_text e s"
  by (simp add: timer_text_def)

lemma transcript_text_trace [simp]: "transcript_text (s\<lparr>trace := t\<rparr>) = transcript_text s"
  by (simp add: transcript_text_def)

lemmas model_defs = start_def start_recording_def start_ui_timer_def stop_def createRecognitionInstance_def startWatchdog_def
  setInterval_def setTimeout_def add_timer_def clearTimeout_def touchWatchdog_def
  resetRetryState_def session_start_def session_abort_def abort_if_started_def is_started_def
  lookup_session_def set_isStarted_def set_lang_def

lemmas config_defs = WATCHDOG_TIMEOUT_MS_def WATCHDOG_CHECK_INTERVAL_MS_def
  INITIAL_RETRY_DELAY_MS_def MAX_RETRY_DELAY_MS_def RETRY_MULTIPLIER_def
  USE_DUAL_RECOGNITION_def MAX_CONSECUTIVE_ERRORS_def ERROR_COOLDOWN_MS_def
  RESULT_DEBOUNCE_MS_def

lemmas env_defs = silent_env_def listening_env_def throwing_env_def

lemmas eval_defs = model_defs env_defs config_defs wrapper_eqs emitted_def Let_def js_def
  run_def fire_def run_callback_def on_session_def onend_def onstart_def onerror_def
  scheduleRestart_def restart_callback_def performDualRestart_def performSingleRestart_def
  restart_failed_def handleTooManyErrors_def check_error_limit_def incrementRetryDelay_def
  cooldown_callback_def watchdog_callback_def flush_callback_def

lemma started_eq:
  "started =
     \<lparr>sessions = [\<lparr>lang = js ''pt-BR'', slabel = Primary, isStarted = False\<rparr>,
                  \<lparr>lang = js ''pt-BR'', slabel = Backup, isStarted = False\<rparr>],
      recognition = Some 0, recognitionBackup = Some 1,
      activeRecognition = Primary, transcribedAll = [], nLines = 0, currentPartial = [],
      pendingFinals = [], isRecording = True, shouldBeRecording = True, startTime = 0,
      timerInterval = Some 1, lastEventTime = 0, watchdogInterval = Some 2,
      retryDelay = 100, consecutiveErrors = 0, isRestarting = False,
      restartTimeout = None, resultDebounceTimer = None,
      timers = [\<lparr>tid = 1, tcallback = UiTimerCb, tdelay = 100, tscheduled = 0, trepeat = True\<rparr>,
                \<lparr>tid = 2, tcallback = WatchdogCb, tdelay = 1000, tscheduled = 0, trepeat = True\<rparr>],
      next_timer = 3, trace = [CmdStart 0]\<rparr>"
  by (simp add: started_def model_defs env_defs wrapper_eqs emitted_def initial_def Let_def
      config_defs js_def)

lemma try_call_normal:
  "try_catch_empty (call_cb cb v a) s =
     Normal (state_of (try_catch_empty (call_cb (map_option (\<lambda>f n v. Returns) cb) v a) s))"
  by (simp add: try_catch_empty_def call_cb_def split: option.split outcome.split)

section \<open>Rounding\<close>

text \<open>
  \<open>exponent x\<close> is the binade of a positive \<open>x\<close>, and \<open>round_double x\<close> is a multiple of
  the spacing of the doubles there, no further from \<open>x\<close> than half the spacing.
\<close>

lemma exponent_bounds:
  assumes "0 < x"
  shows "pow2 (exponent x) \<le> x \<and> x < pow2 (exponent x + 1)"
proof (cases "1 \<le> x")
  case True
  define m where "m = \<lfloor>x\<rfloor>"
  have m: "1 \<le> m" using True by (simp add: m_def le_floor_iff)
  then have b: "1 \<le> bitlen m" by (simp add: bitlen_ge_iff_power)
  from bitlen_bounds [of m] m have lo: "2 ^ nat (bitlen m - 1) \<le> m" and hi: "m < 2 ^ nat (bitlen m)"
    by simp_all
  have e: "exponent x = bitlen m - 1" using True by (simp add: exponent_def m_def)
  have "(of_int (2 ^ nat (bitlen m - 1)) :: rat) \<le> of_int m" using lo by (simp only: of_int_le_iff)
  also have "\<dots> \<le> x" unfolding m_def by linarith
  finally have 1: "pow2 (exponent x) \<le> x" using b by (simp add: e pow2_def)
  from hi have "m + 1 \<le> 2 ^ nat (bitlen m)" by simp
  then have "(of_int (m + 1) :: rat) \<le> of_int (2 ^ nat (bitlen m))" by (simp only: of_int_le_iff)
  moreover have "x < of_int (m + 1)" unfolding m_def by linarith
  ultimately have "x < 2 ^ nat (bitlen m)" by simp
  then have 2: "x < pow2 (exponent x + 1)" using b by (simp add: e pow2_def)
  from 1 2 show ?thesis ..
next
  case False
  define y where "y = 1 / x"
  define n where "n = \<lceil>y\<rceil> - 1"
  have y: "1 < y" using False assms by (simp add: y_def)
  then have "2 \<le> \<lceil>y\<rceil>" by (simp add: le_ceiling_iff)
  then have n: "1 \<le> n" by (simp add: n_def)
  then have b: "1 \<le> bitlen n" by (simp add: bitlen_ge_iff_power)
  from bitlen_bounds [of n] n have lo: "2 ^ nat (bitlen n - 1) \<le> n" and hi: "n < 2 ^ nat (bitlen n)"
    by simp_all
  have e: "exponent x = - bitlen n" using False by (simp add: exponent_def n_def y_def)
  define j where "j = nat (bitlen n)"
  define k where "k = nat (bitlen n - 1)"
  have ej: "exponent x = - int j" and ek: "exponent x + 1 = - int k"
    using b by (simp_all add: e j_def k_def)
  have pj: "pow2 (- int j) = 1 / 2 ^ j" and pk: "pow2 (- int k) = 1 / 2 ^ k"
    by (simp_all add: pow2_def)
  from hi have "n + 1 \<le> 2 ^ j" by (simp add: j_def)
  then have "(of_int (n + 1) :: rat) \<le> 2 ^ j"
    using of_int_le_iff [of "n + 1" "2 ^ j", where ?'a = rat] by simp
  moreover have "y \<le> of_int (n + 1)" unfolding n_def by linarith
  ultimately have "1 / x \<le> 2 ^ j" unfolding y_def by linarith
  then have "1 \<le> 2 ^ j * x" by (simp only: pos_divide_le_eq [OF assms])
  then have "1 / 2 ^ j \<le> x" by (simp add: pos_divide_le_eq mult.commute)
  then have 1: "pow2 (exponent x) \<le> x" by (simp only: ej pj)
  have "(2 ^ k :: rat) \<le> of_int n"
    using lo of_int_le_iff [of "2 ^ k" n, where ?'a = rat] by (simp add: k_def)
  moreover have "of_int n < y" unfolding n_def by linarith
  ultimately have "2 ^ k < 1 / x" unfolding y_def by linarith
  then have "2 ^ k * x < 1" by (simp only: pos_less_divide_eq [OF assms])
  then have "x < 1 / 2 ^ k" by (simp add: pos_less_divide_eq mult.commute)
  then have 2: "x < pow2 (exponent x + 1)" by (simp only: ek pk)
  from 1 2 show ?thesis ..
qed

lemma round_even_near: "\<bar>of_int (round_even y) - y\<bar> \<le> 1 / 2"
proof -
  have "of_int \<lfloor>y\<rfloor> \<le> y" "y < of_int \<lfloor>y\<rfloor> + 1" by linarith+
  then show ?thesis by (auto simp add: round_even_def Let_def)
qed

lemma pow2_pos: "0 < pow2 k"
  by (simp add: pow2_def)

lemma round_double_near:
  "\<bar>round_double x - x\<bar> \<le> pow2 (max (exponent \<bar>x\<bar> - 52) (- 1074)) / 2"
proof (cases "x = 0")
  case True
  then show ?thesis using pow2_pos [of "max (exponent \<bar>x\<bar> - 52) (- 1074)"]
    by (simp add: round_double_def)
next
  case False
  define q where "q = pow2 (max (exponent \<bar>x\<bar> - 52) (- 1074))"
  define r where "r = (of_int (round_even (\<bar>x\<bar> / q)) :: rat)"
  have q: "0 < q" unfolding q_def by (rule pow2_pos)
  have rd: "round_double x = sgn x * r * q"
    using False by (simp add: round_double_def Let_def q_def r_def)
  have "\<bar>r - \<bar>x\<bar> / q\<bar> \<le> 1 / 2" unfolding r_def by (rule round_even_near)
  then have "\<bar>r - \<bar>x\<bar> / q\<bar> * q \<le> 1 / 2 * q" using q by (simp only: mult_le_cancel_right_pos)
  moreover have "\<bar>r - \<bar>x\<bar> / q\<bar> * q = \<bar>r * q - \<bar>x\<bar>\<bar>"
  proof -
    have "\<bar>r - \<bar>x\<bar> / q\<bar> * q = \<bar>(r - \<bar>x\<bar> / q) * q\<bar>" using q by (simp add: abs_mult)
    also have "(r - \<bar>x\<bar> / q) * q = r * q - \<bar>x\<bar>" using q by (simp add: left_diff_distrib)
    finally show ?thesis .
  qed
  ultimately have n: "\<bar>r * q - \<bar>x\<bar>\<bar> \<le> q / 2" by simp
  have "round_double x - x = sgn x * (r * q - \<bar>x\<bar>)"
    by (simp add: rd right_diff_distrib mult.assoc mult_sgn_abs)
  then have "\<bar>round_double x - x\<bar> = \<bar>r * q - \<bar>x\<bar>\<bar>"
    using False by (simp add: abs_mult abs_sgn_eq)
  with n show ?thesis by (simp add: q_def)
qed

text \<open>An integer below \<open>2\<^sup>5\<^sup>3\<close> is a double, so counting lines from 0 is exact.\<close>

lemma round_even_int: "round_even (of_int j) = j"
  by (simp add: round_even_def)

lemma exponent_int:
  assumes "1 \<le> m" "m < 2 ^ 53"
  shows "0 \<le> exponent (of_int m) \<and> exponent (of_int m) \<le> 52"
proof -
  have "bitlen m \<le> 53" using assms(2) by (simp add: bitlen_le_iff_power)
  moreover have "1 \<le> bitlen m" using assms(1) by (simp add: bitlen_ge_iff_power)
  ultimately show ?thesis using assms(1) by (simp add: exponent_def)
qed

lemma round_double_int:
  assumes "\<bar>m\<bar> < 2 ^ 53"
  shows "round_double (of_int m) = of_int m"
proof (cases "m = 0")
  case True
  then show ?thesis by (simp add: round_double_def)
next
  case False
  define a where "a = \<bar>m\<bar>"
  have a: "1 \<le> a" "a < 2 ^ 53" using False assms by (simp_all add: a_def)
  define j where "j = nat (52 - exponent (of_int a))"
  from exponent_int [OF a] have e: "max (exponent (of_int a) - 52) (- 1074) = - int j"
    by (simp add: j_def)
  have q: "pow2 (- int j) = 1 / 2 ^ j" by (simp add: pow2_def)
  have "(of_int a :: rat) / (1 / 2 ^ j) = of_int (a * 2 ^ j)" by simp
  then have r: "round_even (of_int a / (1 / 2 ^ j)) = a * 2 ^ j"
    by (simp only: round_even_int)
  have abs: "\<bar>of_int m :: rat\<bar> = of_int a" by (simp add: a_def)
  have nz: "(of_int m :: rat) \<noteq> 0" using False by simp
  have "round_double (of_int m) = sgn (of_int m) * of_int (a * 2 ^ j) * (1 / 2 ^ j)"
    unfolding round_double_def Let_def abs e q r using nz by (simp only: if_False)
  also have "\<dots> = sgn (of_int m) * of_int a" by simp
  also have "\<dots> = sgn (of_int m) * \<bar>of_int m :: rat\<bar>" by (simp only: abs)
  also have "\<dots> = of_int m" by (rule sgn_mult_abs)
  finally show ?thesis .
qed

text \<open>
  Other counts round: \<^verbatim>\<open>0.1\<close> is the double \<open>3602879701896397 / 2\<^sup>5\<^sup>5\<close> and \<^verbatim>\<open>0.1 + 1\<close> is
  \<open>4953959590107546 / 2\<^sup>5\<^sup>2\<close>; \<open>2\<^sup>-\<^sup>5\<^sup>3 + 1\<close> lies halfway between two doubles and goes
  to 1.
\<close>

lemma round_double_tenth:
  "round_double (3602879701896397 / 2 ^ 55 + 1) = 4953959590107546 / 2 ^ 52"
  by code_simp



lemma round_double_count:
  "n < 2 ^ 53 - 1 \<Longrightarrow> round_double (of_nat n + 1) = of_nat n + 1"
  using round_double_int [of "int n + 1"] by simp

section \<open>Splitting and joining\<close>

lemma BR_split: "BR = [0x3C, 0x62, 0x72] @ [0x3E]"
  by (simp add: BR_def js_def)


lemma split_scan_skip: "split_scan sep k acc xs = split_scan sep 0 acc (drop k xs)"
proof (induction xs arbitrary: k)
  case Nil
  show ?case by simp
next
  case (Cons x xs)
  show ?case
  proof (cases k)
    case 0
    then show ?thesis by simp
  next
    case (Suc k')
    then show ?thesis using Cons.IH [of k'] by simp
  qed
qed







text \<open>
  From here on the separator is \<open>p @ [z]\<close> with a last code unit \<open>z\<close> that occurs nowhere
  else in it, as \<^verbatim>\<open>>\<close> in \<^verbatim>\<open><br>\<close>.
\<close>

lemma no_early_match:
  assumes "z \<notin> set c" "z \<notin> set p" "prefix (p @ [z]) (xs @ c @ p @ [z])" "xs \<noteq> [] \<or> c \<noteq> []"
  shows "length (p @ [z]) \<le> length xs"
proof (rule ccontr)
  assume "\<not> length (p @ [z]) \<le> length xs"
  then have lp: "length xs \<le> length p" by simp
  define j where "j = length p - length xs"
  from assms(3) obtain zs where "xs @ c @ p @ [z] = (p @ [z]) @ zs" by (auto simp: prefix_def)
  then have "(xs @ c @ p @ [z]) ! length p = ((p @ [z]) @ zs) ! length p" by simp
  then have at: "(xs @ c @ p @ [z]) ! length p = z" by (simp add: nth_append)
  have "(xs @ c @ p @ [z]) ! length p = (c @ p @ [z]) ! j"
    using lp by (simp add: nth_append j_def)
  with at have cj: "(c @ p @ [z]) ! j = z" by simp
  show False
  proof (cases "j < length c")
    case True
    then have "c ! j = z" using cj by (simp add: nth_append)
    with True assms(1) show False by (metis nth_mem)
  next
    case False
    have "j - length c < length p" using assms(4) lp False
      by (cases xs; cases c) (auto simp: j_def)
    moreover from this have "p ! (j - length c) = z" using cj False by (simp add: nth_append)
    ultimately show False using assms(2) by (metis nth_mem)
  qed
qed

lemma split_scan_tail:
  assumes "z \<notin> set c" "z \<notin> set p"
  shows "split_scan (p @ [z]) 0 acc (c @ p @ [z]) = [rev acc @ c, []]"
  using assms(1)
proof (induction c arbitrary: acc)
  case Nil
  obtain x xs where x: "p @ [z] = x # xs" by (cases "p @ [z]") auto
  then have l: "length xs = length p" by (metis length_Cons length_append_singleton old.nat.inject)
  have "split_scan (p @ [z]) (length xs) [] xs = [[]]"
    by (subst split_scan_skip) simp
  then show ?case using x l by simp
next
  case (Cons a c)
  have "\<not> prefix (p @ [z]) ((a # c) @ p @ [z])"
  proof
    assume "prefix (p @ [z]) ((a # c) @ p @ [z])"
    then have "prefix (p @ [z]) ([] @ (a # c) @ p @ [z])" by simp
    from no_early_match [OF Cons.prems assms(2) this] show False by simp
  qed
  then show ?case using Cons.IH [of "a # acc"] Cons.prems by simp
qed

lemma split_scan_last_line:
  assumes "z \<notin> set c" "z \<notin> set p" "k \<le> length xs"
  shows "\<exists>front u. split_scan (p @ [z]) k acc (xs @ c @ p @ [z]) = front @ [u @ c, []]"
  using assms(3)
proof (induction xs arbitrary: k acc)
  case Nil
  then show ?case using split_scan_tail [OF assms(1,2), of acc] by auto
next
  case (Cons x xs)
  show ?case
  proof (cases k)
    case (Suc k')
    with Cons.prems have "k' \<le> length xs" by simp
    from Cons.IH [OF this, of acc] Suc show ?thesis by simp
  next
    case 0
    show ?thesis
    proof (cases "prefix (p @ [z]) ((x # xs) @ c @ p @ [z])")
      case True
      from no_early_match [OF assms(1,2) True] have "length (p @ [z]) - 1 \<le> length xs" by simp
      from Cons.IH [OF this, of "[]"] obtain front u where
        "split_scan (p @ [z]) (length (p @ [z]) - 1) [] (xs @ c @ p @ [z]) = front @ [u @ c, []]"
        by blast
      then have "split_scan (p @ [z]) 0 acc ((x # xs) @ c @ p @ [z]) = (rev acc # front) @ [u @ c, []]"
        using True by simp
      then show ?thesis using 0 by blast
    next
      case False
      from Cons.IH [of 0 "x # acc"] obtain front u where
        "split_scan (p @ [z]) 0 (x # acc) (xs @ c @ p @ [z]) = front @ [u @ c, []]" by auto
      then show ?thesis using False 0 by simp
    qed
  qed
qed

lemma js_join_snoc2: "\<exists>w. js_join sep (ys @ [a, b]) = w @ a @ sep @ b"
proof (induction ys)
  case Nil
  show ?case by simp
next
  case (Cons y ys)
  then obtain w where "js_join sep (ys @ [a, b]) = w @ a @ sep @ b" by blast
  then have "js_join sep ((y # ys) @ [a, b]) = (y @ sep @ w) @ a @ sep @ b"
    by (cases ys) auto
  then show ?case by blast
qed

lemma capped_keeps_last_line:
  assumes "z \<notin> set c" "z \<notin> set p" "2 \<le> n"
  shows "suffix (c @ p @ [z]) (js_join (p @ [z]) (slice_last n (js_split (p @ [z]) (t @ c @ p @ [z]))))"
proof -
  obtain front u where f: "js_split (p @ [z]) (t @ c @ p @ [z]) = front @ [u @ c, []]"
    using split_scan_last_line [OF assms(1,2), of 0 t "[]"] by (auto simp: js_split_def)
  have "slice_last n (front @ [u @ c, []]) = drop (length front + 2 - n) front @ [u @ c, []]"
    using assms(3) by (simp add: slice_last_def)
  moreover obtain w where
    "js_join (p @ [z]) (drop (length front + 2 - n) front @ [u @ c, []]) = w @ (u @ c) @ (p @ [z]) @ []"
    using js_join_snoc2 by blast
  ultimately show ?thesis using f by (simp add: suffix_def)
qed

lemma no_match_inside_line:
  assumes "z \<notin> set c" "z \<notin> set p" "c \<noteq> []"
  shows "\<not> prefix (p @ [z]) (c @ p @ [z] @ rest)"
proof
  assume "prefix (p @ [z]) (c @ p @ [z] @ rest)"
  then obtain zs where "c @ p @ [z] @ rest = (p @ [z]) @ zs" by (auto simp: prefix_def)
  then have "(c @ p @ [z] @ rest) ! length p = ((p @ [z]) @ zs) ! length p" by simp
  then have at: "(c @ p @ [z] @ rest) ! length p = z" by (simp add: nth_append)
  show False
  proof (cases "length p < length c")
    case True
    then have "c ! length p = z" using at by (simp add: nth_append)
    with True assms(1) show False by (metis nth_mem)
  next
    case False
    have "length p - length c < length p" using assms(3) False by (cases c) auto
    moreover from this have "p ! (length p - length c) = z" using at False by (simp add: nth_append)
    ultimately show False using assms(2) by (metis nth_mem)
  qed
qed

lemma split_scan_first_line:
  assumes "z \<notin> set l" "z \<notin> set p"
  shows "split_scan (p @ [z]) 0 acc (l @ p @ [z] @ rest) =
           (rev acc @ l) # split_scan (p @ [z]) 0 [] rest"
  using assms(1)
proof (induction l arbitrary: acc)
  case Nil
  obtain x xs where x: "p @ [z] = x # xs" by (cases "p @ [z]") auto
  then have l: "length xs = length p" by (metis length_Cons length_append_singleton old.nat.inject)
  have arg: "[] @ p @ [z] @ rest = x # (xs @ rest)"
    using x by (metis append_Cons append_Nil append_assoc)
  have pre: "prefix (p @ [z]) (x # (xs @ rest))" unfolding x by simp
  then have "split_scan (p @ [z]) 0 acc (x # (xs @ rest)) =
      rev acc # split_scan (p @ [z]) (length (p @ [z]) - 1) [] (xs @ rest)" by simp
  also have "split_scan (p @ [z]) (length (p @ [z]) - 1) [] (xs @ rest) =
      split_scan (p @ [z]) 0 [] rest"
    by (subst split_scan_skip) (simp add: l)
  finally show ?case unfolding arg by simp
next
  case (Cons a l)
  from no_match_inside_line [OF Cons.prems assms(2), of rest]
  have "\<not> prefix (p @ [z]) ((a # l) @ p @ [z] @ rest)" by simp
  then show ?case using Cons.IH [of "a # acc"] Cons.prems by simp
qed

lemma js_split_lines:
  assumes "\<forall>l \<in> set ls. 0x3E \<notin> set l"
  shows "js_split BR (transcript_of_lines ls) = ls @ [[]]"
  using assms
proof (induction ls)
  case Nil
  show ?case by (simp add: js_split_def transcript_of_lines_def)
next
  case (Cons l ls)
  have "(0x3E :: jschar) \<notin> set [0x3C, 0x62, 0x72]" by simp
  from split_scan_first_line [OF _ this, of l "[]" "transcript_of_lines ls"] Cons.prems
  have "js_split BR (transcript_of_lines (l # ls)) = l # js_split BR (transcript_of_lines ls)"
    by (simp add: js_split_def transcript_of_lines_def BR_split)
  with Cons show ?case by simp
qed

lemma js_join_lines: "js_join BR (ls @ [[]]) = transcript_of_lines ls"
proof (induction ls)
  case Nil
  show ?case by (simp add: transcript_of_lines_def)
next
  case (Cons l ls)
  then show ?case by (cases ls) (simp_all add: transcript_of_lines_def)
qed

lemma transcript_of_lines_snoc:
  "transcript_of_lines ls @ c @ BR = transcript_of_lines (ls @ [c])"
  by (simp add: transcript_of_lines_def)

lemma cap_keeps_49:
  assumes "\<forall>l \<in> set ls. 0x3E \<notin> set l" and "50 \<le> length ls"
  shows "js_join BR (slice_last 50 (js_split BR (transcript_of_lines ls))) =
         transcript_of_lines (drop (length ls - 49) ls)"
proof -
  have "slice_last 50 (ls @ [[]]) = drop (length ls - 49) ls @ [[]]"
    using assms(2) by (simp add: slice_last_def)
  then show ?thesis using js_split_lines [OF assms(1)] by (simp add: js_join_lines)
qed


















section \<open>The flush\<close>

lemma combined_empty_queue: "pendingFinals s = [] \<Longrightarrow> combined s = []"
  by (simp add: combined_def js_trim_def)

lemma flush_blank:
  "combined s = [] \<Longrightarrow> processBufferedResults e s = s\<lparr>pendingFinals := []\<rparr>"
  by (cases "pendingFinals s = []") (simp_all add: processBufferedResults_def combined_def Let_def)

lemma flush_line:
  assumes "combined s \<noteq> []"
  shows "processBufferedResults e s =
    s\<lparr>pendingFinals := [],
      transcribedAll :=
        (if round_double (nLines s + 1) > 50
         then js_join BR (slice_last 50 (js_split BR (transcribedAll s @ combined s @ BR)))
         else transcribedAll s @ combined s @ BR),
      nLines := (if round_double (nLines s + 1) > 50 then 50 else round_double (nLines s + 1)),
      trace := trace s @
        emitted (onDebug e)
          (Debug (now e) (DbgNewLine (take 50 (combined s)) (50 < length (combined s)))) @
        emitted (onTranscriptHtml e)
          (TranscriptHtml (transcript_text (processBufferedResults e s))) @
        emitted (persistScheduleAutosave e) Autosave\<rparr>"
proof -
  from assms have ne: "pendingFinals s \<noteq> []" using combined_empty_queue by blast
  show ?thesis using assms ne
    by (simp add: processBufferedResults_def combined_def [symmetric] Let_def wrapper_eqs
        transcript_text_def)
qed

lemma flush_frame:
  "r = s\<lparr>pendingFinals := a, transcribedAll := b, nLines := c, trace := d\<rparr> \<Longrightarrow>
   r = s\<lparr>pendingFinals := a, transcribedAll := transcribedAll r, nLines := nLines r,
         trace := trace r\<rparr>"
  by simp


section \<open>The line cap\<close>

lemma flush_over_cap:
  assumes "transcribedAll s = transcript_of_lines ls"
    and "\<forall>l \<in> set ls. 0x3E \<notin> set l" and "0x3E \<notin> set (combined s)" and "combined s \<noteq> []"
    and "49 \<le> length ls" and "50 < round_double (nLines s + 1)"
  shows "transcribedAll (processBufferedResults e s) =
           transcript_of_lines (drop (length ls - 48) ls @ [combined s]) \<and>
         nLines (processBufferedResults e s) = 50"
proof -
  have a: "\<forall>l \<in> set (ls @ [combined s]). 0x3E \<notin> set l" using assms(2,3) by simp
  have b: "50 \<le> length (ls @ [combined s])" using assms(5) by simp
  have "transcribedAll (processBufferedResults e s) =
      js_join BR (slice_last 50 (js_split BR (transcribedAll s @ combined s @ BR)))"
    using assms(6) by (subst flush_line [OF assms(4)]) simp
  also have "\<dots> = transcript_of_lines (drop (length (ls @ [combined s]) - 49) (ls @ [combined s]))"
    using cap_keeps_49 [OF a b] by (simp add: assms(1) transcript_of_lines_snoc)
  also have "drop (length (ls @ [combined s]) - 49) (ls @ [combined s]) =
      drop (length ls - 48) ls @ [combined s]" using assms(5) by simp
  finally have t: "transcribedAll (processBufferedResults e s) =
           transcript_of_lines (drop (length ls - 48) ls @ [combined s])" .
  have "nLines (processBufferedResults e s) = 50"
    using assms(6) by (subst flush_line [OF assms(4)]) simp
  with t show ?thesis by simp
qed









section \<open>Retry state\<close>

lemma addFinalResult_retry:
  "retryDelay (addFinalResult e t s) = retryDelay s \<and>
   consecutiveErrors (addFinalResult e t s) = consecutiveErrors s"
  by (simp add: addFinalResult_def setTimeout_def add_timer_def clearTimeout_def Let_def
      split: option.split)

lemma result_loop_retry:
  "retryDelay (fst (result_loop e rs (s, i))) = retryDelay s \<and>
   consecutiveErrors (fst (result_loop e rs (s, i))) = consecutiveErrors s"
proof (induction rs arbitrary: s i)
  case Nil
  show ?case by simp
next
  case (Cons r rs)
  obtain f t where r: "r = (f, t)" by (cases r)
  show ?case
  proof (cases f)
    case True
    with r Cons.IH [of "(addFinalResult e t s)\<lparr>currentPartial := []\<rparr>" i]
    show ?thesis by (simp add: addFinalResult_retry)
  next
    case False
    with r Cons.IH [of s "i @ t"] show ?thesis by simp
  qed
qed

section \<open>Timer callbacks without intent\<close>








lemma abort_if_started_eq:
  "abort_if_started e r s =
     s\<lparr>trace := trace s @ (case r of None \<Rightarrow> [] | Some h \<Rightarrow> if is_started s r then [CmdAbort h] else [])\<rparr>"
  by (simp add: abort_if_started_def try_catch_empty_def session_abort_def split: option.split)

lemma flush_frame_all:
  "processBufferedResults e s =
     s\<lparr>pendingFinals := [], transcribedAll := transcribedAll (processBufferedResults e s),
       nLines := nLines (processBufferedResults e s), trace := trace (processBufferedResults e s)\<rparr>"
proof (cases "combined s = []")
  case True
  then show ?thesis by (simp add: flush_blank)
next
  case False
  show ?thesis by (rule flush_frame [OF flush_line [OF False]])
qed

lemma flush_fields:
  "restartTimeout (processBufferedResults e s) = restartTimeout s"
  "isRestarting (processBufferedResults e s) = isRestarting s"
  "watchdogInterval (processBufferedResults e s) = watchdogInterval s"
  "resultDebounceTimer (processBufferedResults e s) = resultDebounceTimer s"
  "timerInterval (processBufferedResults e s) = timerInterval s"
  "timers (processBufferedResults e s) = timers s"
  "shouldBeRecording (processBufferedResults e s) = shouldBeRecording s"
  "pendingFinals (processBufferedResults e s) = []"
  by (subst flush_frame_all, simp)+




section \<open>Backoff\<close>

lemma dir_trace [simp]: "delay_in_range (s\<lparr>trace := t\<rparr>) = delay_in_range s"
  by (simp add: delay_in_range_def)

lemma dir_fields [simp]:
  "delay_in_range (s\<lparr>sessions := a1\<rparr>) = delay_in_range s"
  "delay_in_range (s\<lparr>recognition := a2\<rparr>) = delay_in_range s"
  "delay_in_range (s\<lparr>recognitionBackup := a3\<rparr>) = delay_in_range s"
  "delay_in_range (s\<lparr>activeRecognition := a4\<rparr>) = delay_in_range s"
  "delay_in_range (s\<lparr>transcribedAll := a5\<rparr>) = delay_in_range s"
  "delay_in_range (s\<lparr>nLines := a6\<rparr>) = delay_in_range s"
  "delay_in_range (s\<lparr>currentPartial := a7\<rparr>) = delay_in_range s"
  "delay_in_range (s\<lparr>pendingFinals := a8\<rparr>) = delay_in_range s"
  "delay_in_range (s\<lparr>isRecording := a9\<rparr>) = delay_in_range s"
  "delay_in_range (s\<lparr>shouldBeRecording := b1\<rparr>) = delay_in_range s"
  "delay_in_range (s\<lparr>startTime := b2\<rparr>) = delay_in_range s"
  "delay_in_range (s\<lparr>timerInterval := b3\<rparr>) = delay_in_range s"
  "delay_in_range (s\<lparr>lastEventTime := b4\<rparr>) = delay_in_range s"
  "delay_in_range (s\<lparr>watchdogInterval := b5\<rparr>) = delay_in_range s"
  "delay_in_range (s\<lparr>consecutiveErrors := b6\<rparr>) = delay_in_range s"
  "delay_in_range (s\<lparr>isRestarting := b7\<rparr>) = delay_in_range s"
  "delay_in_range (s\<lparr>restartTimeout := b8\<rparr>) = delay_in_range s"
  "delay_in_range (s\<lparr>resultDebounceTimer := b9\<rparr>) = delay_in_range s"
  "delay_in_range (s\<lparr>next_timer := c1\<rparr>) = delay_in_range s"
  by (simp_all add: delay_in_range_def)

lemma dir_wrappers [simp]:
  "delay_in_range (dbg e m s) = delay_in_range s"
  "delay_in_range (setBanner e b s) = delay_in_range s"
  "delay_in_range (emitStatus e s) = delay_in_range s"
  "delay_in_range (emitTimer e s) = delay_in_range s"
  "delay_in_range (emitTranscript e s) = delay_in_range s"
  "delay_in_range (emitPartial e s) = delay_in_range s"
  "delay_in_range (scheduleAutosave e s) = delay_in_range s"
  "delay_in_range (touchWatchdog e s) = delay_in_range s"
  "delay_in_range (abort_if_started e r s) = delay_in_range s"
  "delay_in_range (set_isStarted h b' s) = delay_in_range s"
  "delay_in_range (set_lang h l s) = delay_in_range s"
  by (simp_all add: wrapper_eqs touchWatchdog_def abort_if_started_eq set_isStarted_def set_lang_def)










lemma dir_session_start:
  "delay_in_range (state_of (session_start e h s)) = delay_in_range s"
  by (simp add: session_start_def)

























section \<open>Cooldown\<close>

lemma error_storm_eq:
  "error_storm = started
     \<lparr>lastEventTime := 1000,
      timers := timers started @
        [\<lparr>tid = 3, tcallback = CooldownCb, tdelay = 3000, tscheduled = 1000, trepeat = False\<rparr>],
      next_timer := 4\<rparr>"
  by (simp add: error_storm_def network_error_def started_eq eval_defs)

lemma storm_ended_eq:
  "storm_ended = error_storm
     \<lparr>isRestarting := True, restartTimeout := Some 4,
      timers := timers error_storm @
        [\<lparr>tid = 4, tcallback = RestartCb Primary, tdelay = 100, tscheduled = 1000, trepeat = False\<rparr>],
      next_timer := 5\<rparr>"
  by (simp add: storm_ended_def error_storm_eq started_eq eval_defs)

lemma storm_restarted_eq:
  "storm_restarted = error_storm
     \<lparr>activeRecognition := Backup, next_timer := 5, trace := [CmdStart 0, CmdStart 1]\<rparr>"
  by (simp add: storm_restarted_def storm_ended_eq error_storm_eq started_eq eval_defs)

lemma storm_cooled_eq:
  "storm_cooled = storm_restarted
     \<lparr>timers := timers started, trace := [CmdStart 0, CmdStart 1, CmdStart 0]\<rparr>"
  by (simp add: storm_cooled_def storm_restarted_eq error_storm_eq started_eq eval_defs)

section \<open>Callbacks that outlive a stop\<close>











section \<open>Fifty-one utterances\<close>

lemma run_append: "run s (xs @ ys) = run (run s xs) ys"
  by (simp add: run_def)

lemma utterances_Suc: "utterances (Suc n) = utterances n @ utterance n"
  by (simp add: utterances_def)

lemma heard:
  "step (spoken n ls) (silent_env 0, SessionResult 0 \<lparr>resultIndex = 0, results = [(True, js ''a'')]\<rparr>) =
     (spoken n ls)\<lparr>pendingFinals := [js ''a''], resultDebounceTimer := Some (3 + n),
        timers := timers started @
          [\<lparr>tid = 3 + n, tcallback = FlushCb, tdelay = 100, tscheduled = 0, trepeat = False\<rparr>],
        next_timer := 4 + n\<rparr>"
  by (simp add: spoken_def started_eq eval_defs onresult_def addFinalResult_def js_trim_def
      is_js_space_def)

lemma utterance_step:
  "run (spoken n ls) (utterance n) =
     processBufferedResults (silent_env 0)
       ((spoken n ls)\<lparr>pendingFinals := [js ''a''], next_timer := 4 + n\<rparr>)"
proof -
  have "run (spoken n ls) (utterance n) =
      fire (silent_env 0) (3 + n)
        ((spoken n ls)\<lparr>pendingFinals := [js ''a''], resultDebounceTimer := Some (3 + n),
        timers := timers started @
          [\<lparr>tid = 3 + n, tcallback = FlushCb, tdelay = 100, tscheduled = 0, trepeat = False\<rparr>],
        next_timer := 4 + n\<rparr>)"
    unfolding utterance_def run_def by (simp add: heard del: step.simps) simp
  also have "\<dots> = processBufferedResults (silent_env 0)
       ((spoken n ls)\<lparr>pendingFinals := [js ''a''], next_timer := 4 + n\<rparr>)"
    by (simp add: fire_def run_callback_def flush_callback_def spoken_def started_eq)
  finally show ?thesis .
qed

lemma combined_a: "combined (s\<lparr>pendingFinals := [js ''a''], next_timer := k\<rparr>) = js ''a''"
  by (simp add: combined_def js_trim_def js_def is_js_space_def)

lemma below_cap:
  assumes "n < 50"
  shows "run (spoken n ls) (utterance n) = spoken (Suc n) (ls @ [js ''a''])"
proof -
  let ?s = "(spoken n ls)\<lparr>pendingFinals := [js ''a''], next_timer := 4 + n\<rparr>"
  have c: "combined ?s = js ''a''" by (rule combined_a)
  then have ne: "combined ?s \<noteq> []" by (simp add: js_def)
  have "round_double (nLines ?s + 1) = of_nat n + 1"
    using assms round_double_count [of n] by (simp add: spoken_def)
  then have n: "round_double (nLines ?s + 1) = nLines ?s + 1" "nLines ?s + 1 \<le> 50"
    using assms by (simp_all add: spoken_def)
  have "processBufferedResults (silent_env 0) ?s =
      ?s\<lparr>pendingFinals := [], transcribedAll := transcribedAll ?s @ js ''a'' @ BR,
         nLines := nLines ?s + 1\<rparr>"
    using n by (subst flush_line [OF ne]) (simp add: c emitted_def silent_env_def)
  also have "\<dots> = spoken (Suc n) (ls @ [js ''a''])"
    using assms by (simp add: spoken_def started_eq transcript_of_lines_def)
  finally show ?thesis by (simp add: utterance_step)
qed

lemma fifty_utterances: "n \<le> 50 \<Longrightarrow> run started (utterances n) = spoken n (replicate n (js ''a''))"
proof (induction n)
  case 0
  show ?case by (simp add: utterances_def run_def spoken_def transcript_of_lines_def started_eq)
next
  case (Suc n)
  then have "run started (utterances n) = spoken n (replicate n (js ''a''))" by simp
  moreover have "n < 50" using Suc.prems by simp
  ultimately show ?case
    by (simp add: utterances_Suc run_append below_cap replicate_append_same)
qed

lemma fifty_first_utterance:
  "run started (utterances 51) = spoken 51 (replicate 49 (js ''a''))"
proof -
  let ?ls = "replicate 50 (js ''a'')"
  let ?s = "(spoken 50 ?ls)\<lparr>pendingFinals := [js ''a''], next_timer := 4 + 50\<rparr>"
  have c: "combined ?s = js ''a''" by (rule combined_a)
  have ne: "combined ?s \<noteq> []" and gt: "0x3E \<notin> set (combined ?s)"
    using c by (simp_all add: js_def)
  have t: "transcribedAll ?s = transcript_of_lines ?ls" and l: "\<forall>l \<in> set ?ls. 0x3E \<notin> set l"
    and n49: "49 \<le> length ?ls"
    by (simp_all add: spoken_def js_def)
  have "round_double (nLines ?s + 1) = 51"
    using round_double_count [of 50] by (simp add: spoken_def)
  then have n: "49 \<le> length ?ls" "50 < round_double (nLines ?s + 1)"
    using n49 by simp_all
  have f: "transcribedAll (processBufferedResults (silent_env 0) ?s) =
           transcript_of_lines (drop (length ?ls - 48) ?ls @ [combined ?s]) \<and>
         nLines (processBufferedResults (silent_env 0) ?s) = 50"
    by (rule flush_over_cap [OF t l gt ne n])
  have r: "drop (length ?ls - 48) ?ls @ [js ''a''] = replicate 49 (js ''a'')"
    using replicate_add [of 48 1 "js ''a''"] by simp
  from f have tA: "transcribedAll (processBufferedResults (silent_env 0) ?s) =
      transcript_of_lines (replicate 49 (js ''a''))"
    by (simp only: c r)
  from f have nL: "nLines (processBufferedResults (silent_env 0) ?s) = 50" by simp
  have tr: "trace (processBufferedResults (silent_env 0) ?s) = trace ?s"
    by (subst flush_line [OF ne]) (simp add: emitted_def silent_env_def)
  have "processBufferedResults (silent_env 0) ?s =
      ?s\<lparr>pendingFinals := [], transcribedAll := transcript_of_lines (replicate 49 (js ''a'')),
         nLines := 50, trace := trace ?s\<rparr>"
    by (subst flush_frame_all) (simp only: tA nL tr)
  also have "\<dots> = spoken 51 (replicate 49 (js ''a''))"
    by (simp add: spoken_def started_eq)
  finally have "processBufferedResults (silent_env 0) ?s = spoken 51 (replicate 49 (js ''a''))" .
  moreover have "run started (utterances 51) = run (spoken 50 ?ls) (utterance 50)"
    using fifty_utterances [of 50] utterances_Suc [of 50] by (simp add: run_append)
  ultimately show ?thesis using utterance_step [of 50 ?ls] by simp
qed

section \<open>Callbacks that throw\<close>

lemma emitted_map_option: "emitted (map_option g cb) a = emitted cb a"
  by (cases cb) (simp_all add: emitted_def)

lemma returning_fields:
  "now (returning e) = now e" "speechAvailable (returning e) = speechAvailable e"
  "documentHidden (returning e) = documentHidden e" "getLanguageOpt (returning e) = getLanguageOpt e"
  "startThrows (returning e) = startThrows e" "abortThrows (returning e) = abortThrows e"
  by (simp_all add: returning_def)

lemma returning_wrappers:
  "dbg (returning e) = dbg e" "setBanner (returning e) = setBanner e"
  "emitStatus (returning e) = emitStatus e" "emitTimer (returning e) = emitTimer e"
  "emitTranscript (returning e) = emitTranscript e" "emitPartial (returning e) = emitPartial e"
  "scheduleAutosave (returning e) = scheduleAutosave e"
  by (rule ext, (rule ext)?, simp add: wrapper_eqs returning_def emitted_map_option timer_text_def)+

lemma returning_basic:
  "touchWatchdog (returning e) = touchWatchdog e"
  "add_timer (returning e) = add_timer e"
  "setTimeout (returning e) = setTimeout e"
  "setInterval (returning e) = setInterval e"
  "session_start (returning e) = session_start e"
  "session_abort (returning e) = session_abort e"
  "createRecognitionInstance (returning e) = createRecognitionInstance e"
  by (rule ext, (rule ext)?, (rule ext)?, (rule ext)?, simp add: touchWatchdog_def add_timer_def setTimeout_def setInterval_def
      session_start_def session_abort_def createRecognitionInstance_def returning_fields)+

lemma returning_abort: "abort_if_started (returning e) = abort_if_started e"
  unfolding abort_if_started_def returning_basic by (rule refl)

lemma returning_flush: "processBufferedResults (returning e) = processBufferedResults e"
  unfolding processBufferedResults_def returning_wrappers by (rule refl)

lemma returning_add: "addFinalResult (returning e) = addFinalResult e"
  unfolding addFinalResult_def returning_basic by (rule refl)

lemma returning_scheduleRestart: "scheduleRestart (returning e) = scheduleRestart e"
  unfolding scheduleRestart_def returning_basic by (rule refl)

lemma returning_handle: "handleTooManyErrors (returning e) = handleTooManyErrors e"
  unfolding handleTooManyErrors_def returning_basic returning_wrappers by (rule refl)

lemma returning_restart_failed: "restart_failed (returning e) = restart_failed e"
  unfolding restart_failed_def returning_wrappers returning_scheduleRestart returning_handle
  by (rule refl)

lemma returning_single: "performSingleRestart (returning e) = performSingleRestart e"
  unfolding performSingleRestart_def returning_wrappers returning_abort returning_basic
    returning_restart_failed
  by (rule refl)

lemma returning_dual: "performDualRestart (returning e) = performDualRestart e"
  unfolding performDualRestart_def returning_wrappers returning_basic returning_restart_failed
    returning_handle
  by (rule refl)

lemma returning_callbacks: "run_callback (returning e) = run_callback e"
  unfolding run_callback_def flush_callback_def restart_callback_def cooldown_callback_def
    watchdog_callback_def returning_flush returning_dual returning_single returning_wrappers
    returning_abort returning_scheduleRestart returning_fields
  by (rule refl)

lemma returning_result_loop: "result_loop (returning e) rs p = result_loop e rs p"
proof (induction rs arbitrary: p)
  case Nil
  show ?case by (cases p) simp
next
  case (Cons r rs)
  then show ?case by (cases p; cases r) (simp add: returning_add)
qed

lemma returning_result_loop_fun: "result_loop (returning e) = result_loop e"
  by (rule ext, rule ext) (rule returning_result_loop)

lemma returning_handlers:
  "onstart (returning e) = onstart e" "onend (returning e) = onend e"
  "onerror (returning e) = onerror e" "onresult (returning e) = onresult e"
  "on_liveness (returning e) = on_liveness e"
  "handleVisibilityChange (returning e) = handleVisibilityChange e"
  unfolding onstart_def onend_def onerror_def onresult_def on_liveness_def
    handleVisibilityChange_def check_error_limit_def returning_wrappers returning_basic
    returning_scheduleRestart returning_handle returning_result_loop_fun returning_single
    returning_fields
  by (rule refl)+

lemma returning_api:
  "init (returning e) = init e" "start (returning e) = start e" "stop (returning e) = stop e"
  "clearTranscript (returning e) = clearTranscript e" "setLanguage (returning e) = setLanguage e"
  "destroy (returning e) = destroy e" "fire (returning e) = fire e"
proof -
  have a: "startWatchdog (returning e) = startWatchdog e"
    unfolding startWatchdog_def returning_basic by (rule refl)
  have b: "start_recording (returning e) = start_recording e"
    unfolding start_recording_def start_ui_timer_def returning_wrappers returning_basic
      returning_fields a
    by (rule refl)
  show "init (returning e) = init e"
    unfolding init_def returning_wrappers returning_fields by (rule refl)
  show "start (returning e) = start e"
    unfolding start_def returning_wrappers returning_basic returning_fields b by (rule refl)
  show c: "stop (returning e) = stop e"
    unfolding stop_def returning_wrappers returning_abort returning_flush by (rule refl)
  show "clearTranscript (returning e) = clearTranscript e"
    unfolding clearTranscript_def returning_wrappers by (rule refl)
  show "setLanguage (returning e) = setLanguage e"
    unfolding setLanguage_def returning_wrappers by (rule refl)
  show "destroy (returning e) = destroy e"
    unfolding destroy_def c by (rule refl)
  show "fire (returning e) = fire e"
    unfolding fire_def returning_callbacks by (rule refl)
qed

lemma step_returning: "step s (returning e, ev) = step s (e, ev)"
  by (cases ev) (simp_all add: returning_api returning_handlers)

section \<open>Timer bookkeeping\<close>








lemma ok_trace [simp]: "timers_ok (s\<lparr>trace := t\<rparr>) = timers_ok s"
  by (simp add: timers_ok_def handles_def)

lemma ok_fields [simp]:
  "timers_ok (s\<lparr>sessions := a1\<rparr>) = timers_ok s"
  "timers_ok (s\<lparr>recognition := a2\<rparr>) = timers_ok s"
  "timers_ok (s\<lparr>recognitionBackup := a3\<rparr>) = timers_ok s"
  "timers_ok (s\<lparr>activeRecognition := a4\<rparr>) = timers_ok s"
  "timers_ok (s\<lparr>transcribedAll := a5\<rparr>) = timers_ok s"
  "timers_ok (s\<lparr>nLines := a6\<rparr>) = timers_ok s"
  "timers_ok (s\<lparr>currentPartial := a7\<rparr>) = timers_ok s"
  "timers_ok (s\<lparr>pendingFinals := a8\<rparr>) = timers_ok s"
  "timers_ok (s\<lparr>isRecording := a9\<rparr>) = timers_ok s"
  "timers_ok (s\<lparr>shouldBeRecording := b1\<rparr>) = timers_ok s"
  "timers_ok (s\<lparr>startTime := b2\<rparr>) = timers_ok s"
  "timers_ok (s\<lparr>lastEventTime := b4\<rparr>) = timers_ok s"
  "timers_ok (s\<lparr>retryDelay := b5\<rparr>) = timers_ok s"
  "timers_ok (s\<lparr>consecutiveErrors := b6\<rparr>) = timers_ok s"
  "timers_ok (s\<lparr>isRestarting := b7\<rparr>) = timers_ok s"
  by (simp_all add: timers_ok_def handles_def)

lemma ok_wrappers [simp]:
  "timers_ok (dbg e m s) = timers_ok s"
  "timers_ok (setBanner e b s) = timers_ok s"
  "timers_ok (emitStatus e s) = timers_ok s"
  "timers_ok (emitTimer e s) = timers_ok s"
  "timers_ok (emitTranscript e s) = timers_ok s"
  "timers_ok (emitPartial e s) = timers_ok s"
  "timers_ok (scheduleAutosave e s) = timers_ok s"
  "timers_ok (touchWatchdog e s) = timers_ok s"
  "timers_ok (abort_if_started e r s) = timers_ok s"
  "timers_ok (set_isStarted h b' s) = timers_ok s"
  "timers_ok (set_lang h l s) = timers_ok s"
  "timers_ok (resetRetryState s) = timers_ok s"
  "timers_ok (incrementRetryDelay s) = timers_ok s"
  by (simp_all add: wrapper_eqs touchWatchdog_def abort_if_started_eq set_isStarted_def
      set_lang_def resetRetryState_def incrementRetryDelay_def)

lemma ok_flush [simp]: "timers_ok (processBufferedResults e s) = timers_ok s"
  by (subst flush_frame_all) simp

lemma ok_create [simp]: "timers_ok (snd (createRecognitionInstance e l s)) = timers_ok s"
  by (simp add: createRecognitionInstance_def Let_def)
















lemma opt_list_eq_single: "opt_list h = [t] \<longleftrightarrow> h = Some t"
  by (cases h) auto





















lemma flag_trace [simp]: "flag_ok (s\<lparr>trace := t\<rparr>) = flag_ok s"
  by (simp add: flag_ok_def)

lemma flag_fields [simp]:
  "flag_ok (s\<lparr>sessions := a1\<rparr>) = flag_ok s"
  "flag_ok (s\<lparr>recognition := a2\<rparr>) = flag_ok s"
  "flag_ok (s\<lparr>recognitionBackup := a3\<rparr>) = flag_ok s"
  "flag_ok (s\<lparr>activeRecognition := a4\<rparr>) = flag_ok s"
  "flag_ok (s\<lparr>transcribedAll := a5\<rparr>) = flag_ok s"
  "flag_ok (s\<lparr>nLines := a6\<rparr>) = flag_ok s"
  "flag_ok (s\<lparr>currentPartial := a7\<rparr>) = flag_ok s"
  "flag_ok (s\<lparr>pendingFinals := a8\<rparr>) = flag_ok s"
  "flag_ok (s\<lparr>isRecording := a9\<rparr>) = flag_ok s"
  "flag_ok (s\<lparr>shouldBeRecording := b1\<rparr>) = flag_ok s"
  "flag_ok (s\<lparr>startTime := b2\<rparr>) = flag_ok s"
  "flag_ok (s\<lparr>timerInterval := b3\<rparr>) = flag_ok s"
  "flag_ok (s\<lparr>lastEventTime := b4\<rparr>) = flag_ok s"
  "flag_ok (s\<lparr>watchdogInterval := b5\<rparr>) = flag_ok s"
  "flag_ok (s\<lparr>retryDelay := b6\<rparr>) = flag_ok s"
  "flag_ok (s\<lparr>consecutiveErrors := b7\<rparr>) = flag_ok s"
  "flag_ok (s\<lparr>resultDebounceTimer := b9\<rparr>) = flag_ok s"
  "flag_ok (s\<lparr>timers := c0\<rparr>) = flag_ok s"
  "flag_ok (s\<lparr>next_timer := c1\<rparr>) = flag_ok s"
  by (simp_all add: flag_ok_def)

lemma flag_wrappers [simp]:
  "flag_ok (dbg e m s) = flag_ok s"
  "flag_ok (setBanner e b s) = flag_ok s"
  "flag_ok (emitStatus e s) = flag_ok s"
  "flag_ok (emitTimer e s) = flag_ok s"
  "flag_ok (emitTranscript e s) = flag_ok s"
  "flag_ok (emitPartial e s) = flag_ok s"
  "flag_ok (scheduleAutosave e s) = flag_ok s"
  "flag_ok (touchWatchdog e s) = flag_ok s"
  "flag_ok (abort_if_started e r s) = flag_ok s"
  "flag_ok (set_isStarted h b' s) = flag_ok s"
  "flag_ok (set_lang h l s) = flag_ok s"
  "flag_ok (resetRetryState s) = flag_ok s"
  "flag_ok (incrementRetryDelay s) = flag_ok s"
  "flag_ok (clearTimeout t s) = flag_ok s"
  "flag_ok (snd (add_timer e r' cb d s)) = flag_ok s"
  "flag_ok (processBufferedResults e s) = flag_ok s"
  "flag_ok (snd (createRecognitionInstance e lb s)) = flag_ok s"
  "flag_ok (stopWatchdog s) = flag_ok s"
  "flag_ok (startWatchdog e s) = flag_ok s"
  "flag_ok (start_ui_timer e s) = flag_ok s"
  "flag_ok (addFinalResult e tx s) = flag_ok s"
  "flag_ok (handleTooManyErrors e s) = flag_ok s"
  by (simp_all add: wrapper_eqs touchWatchdog_def abort_if_started_eq set_isStarted_def
      set_lang_def resetRetryState_def incrementRetryDelay_def clearTimeout_def add_timer_def
      flag_ok_def flush_fields createRecognitionInstance_def Let_def stopWatchdog_def
      startWatchdog_def start_ui_timer_def setInterval_def setTimeout_def split_beta
      addFinalResult_def handleTooManyErrors_def split: option.split)
















lemma restart_timers_ids: "map tid (restart_timers s) = kind_ids is_restart (timers s)"
  by (simp add: restart_timers_def kind_ids_def)


lemma no_pending_restart:
  assumes "timers_tracked s" "\<not> isRestarting s"
  shows "restart_timers s = [] \<and> restartTimeout s = None"
proof -
  from assms have t: "restartTimeout s = None" by (auto simp: timers_tracked_def flag_ok_def)
  with assms(1) have "map tid (restart_timers s) = []"
    by (simp add: restart_timers_ids timers_tracked_def timers_ok_def)
  with t show ?thesis by simp
qed


























section \<open>The claims\<close>




text \<open>
  C2. Fifty utterances leave fifty lines in the transcript and a line count of fifty. The
  fifty-first leaves forty-nine lines and a line count of fifty: \<^verbatim>\<open>split\<close> returns an
  empty string after the last \<^verbatim>\<open><br>\<close>, \<^verbatim>\<open>slice(-50)\<close> counts it as a line, and so two
  old lines go for one new line.
\<close>

theorem cap_keeps_49_lines_but_counts_50:
  "transcribedAll (run started (utterances 50)) = transcript_of_lines (replicate 50 (js ''a'')) \<and>
   nLines (run started (utterances 50)) = 50 \<and>
   transcribedAll (run started (utterances 51)) = transcript_of_lines (replicate 49 (js ''a'')) \<and>
   nLines (run started (utterances 51)) = 50"
  using fifty_utterances [of 50] fifty_first_utterance by (simp add: spoken_def)







text \<open>
  C5. The tenth \<^verbatim>\<open>network\<close> error in a row resets the error counter and the backoff
  delay and registers the cooldown timer of 3000 ms. The \<^verbatim>\<open>ended\<close> event that follows
  registers a restart timer with the delay just reset, 100 ms; when that timer fires,
  \<^verbatim>\<open>start()\<close> is called on the backup object while the cooldown timer is still
  registered, and the cooldown callback later calls \<^verbatim>\<open>start()\<close> once more.
\<close>

theorem cooldown_does_not_suspend_restarts:
  "timers error_storm =
     timers started @
     [\<lparr>tid = 3, tcallback = CooldownCb, tdelay = 3000, tscheduled = 1000, trepeat = False\<rparr>] \<and>
   consecutiveErrors error_storm = 0 \<and> retryDelay error_storm = 100 \<and>
   restart_timers storm_ended =
     [\<lparr>tid = 4, tcallback = RestartCb Primary, tdelay = 100, tscheduled = 1000, trepeat = False\<rparr>] \<and>
   timers storm_restarted = timers error_storm \<and>
   trace storm_restarted = [CmdStart 0, CmdStart 1] \<and>
   trace storm_cooled = [CmdStart 0, CmdStart 1, CmdStart 0]"
  by (simp add: restart_timers_def storm_cooled_eq storm_restarted_eq storm_ended_eq
      error_storm_eq started_eq)

text \<open>
  C6. A \<^verbatim>\<open>no-speech\<close> or \<^verbatim>\<open>aborted\<close> error changes nothing of the bridge's state but the
  liveness timestamp (the trace gains the handler's debug lines): the error counter,
  the backoff delay and the registered timers are what they were, so no restart has been
  scheduled.
\<close>

theorem benign_error_only_touches_liveness:
  assumes "err = js ''no-speech'' \<or> err = js ''aborted''"
  shows "onerror e l err s =
           s\<lparr>lastEventTime := now e, trace := trace (onerror e l err s)\<rparr> \<and>
         (\<exists>ds. trace (onerror e l err s) = trace s @ map (Debug (now e)) ds) \<and>
         consecutiveErrors (onerror e l err s) = consecutiveErrors s \<and>
         retryDelay (onerror e l err s) = retryDelay s \<and>
         timers (onerror e l err s) = timers s \<and>
         isRestarting (onerror e l err s) = isRestarting s \<and>
         restartTimeout (onerror e l err s) = restartTimeout s"
proof -
  have em: "\<exists>ds. emitted cb (Debug t m) @ emitted cb (Debug t m') = map (Debug t) ds"
    for cb :: "'a option" and t m m'
  proof (cases cb)
    case None
    then show ?thesis by (simp add: emitted_def)
  next
    case (Some f)
    then have "emitted cb (Debug t m) @ emitted cb (Debug t m') = map (Debug t) [m, m']"
      by (simp add: emitted_def)
    then show ?thesis by blast
  qed
  from assms show ?thesis
  proof
    assume "err = js ''no-speech''"
    then show ?thesis using em [of "onDebug e" "now e" "DbgError l err" "DbgNoSpeech l"]
      by (simp add: onerror_def Let_def dbg_eq touchWatchdog_def)
  next
    assume a: "err = js ''aborted''"
    have ne: "js ''aborted'' \<noteq> js ''no-speech''" by (simp add: js_def)
    show ?thesis using a ne em [of "onDebug e" "now e" "DbgError l err" "DbgAborted l"]
      by (simp add: onerror_def Let_def dbg_eq touchWatchdog_def)
  qed
qed

theorem benign_error_only_touches_liveness_witness:
  "(js ''aborted'' = js ''no-speech'' \<or> js ''aborted'' = js ''aborted'') \<and>
   onerror (listening_env 7) Backup (js ''aborted'') initial =
     initial\<lparr>lastEventTime := 7,
       trace := [Debug 7 (DbgError Backup (js ''aborted'')), Debug 7 (DbgAborted Backup)]\<rparr>"
proof -
  have h: "js ''aborted'' = js ''no-speech'' \<or> js ''aborted'' = js ''aborted''" by simp
  have t: "trace (onerror (listening_env 7) Backup (js ''aborted'') initial) =
      [Debug 7 (DbgError Backup (js ''aborted'')), Debug 7 (DbgAborted Backup)]"
    by (simp add: onerror_def Let_def dbg_eq touchWatchdog_def emitted_def listening_env_def
        silent_env_def initial_def js_def)
  show ?thesis
    using h t benign_error_only_touches_liveness [OF h, of "listening_env 7" Backup initial]
    by (simp add: listening_env_def silent_env_def)
qed

text \<open>
  C7. After the \<^verbatim>\<open>onstart\<close> handler and after the \<^verbatim>\<open>onresult\<close> handler the backoff
  delay is its floor, 100 ms, and the consecutive-error counter is zero, whatever they
  were before.
\<close>

theorem success_resets_retry_state:
  "retryDelay (onstart e h l s) = INITIAL_RETRY_DELAY_MS \<and>
   consecutiveErrors (onstart e h l s) = 0 \<and>
   retryDelay (onresult e ev s) = INITIAL_RETRY_DELAY_MS \<and>
   consecutiveErrors (onresult e ev s) = 0 \<and>
   INITIAL_RETRY_DELAY_MS = 100"
proof -
  have a: "retryDelay (onstart e h l s) = INITIAL_RETRY_DELAY_MS \<and>
      consecutiveErrors (onstart e h l s) = 0"
    by (simp add: onstart_def Let_def emitStatus_eq resetRetryState_def)
  obtain s3 i where loop:
    "result_loop e (drop (resultIndex ev) (results ev))
       (resetRetryState (touchWatchdog e s), []) = (s3, i)"
    by (cases "result_loop e (drop (resultIndex ev) (results ev))
       (resetRetryState (touchWatchdog e s), [])")
  from result_loop_retry [of e "drop (resultIndex ev) (results ev)"
      "resetRetryState (touchWatchdog e s)" "[]"] loop
  have s3: "retryDelay s3 = INITIAL_RETRY_DELAY_MS \<and> consecutiveErrors s3 = 0"
    by (simp add: resetRetryState_def)
  have b: "retryDelay (onresult e ev s) = INITIAL_RETRY_DELAY_MS \<and>
      consecutiveErrors (onresult e ev s) = 0"
    using s3 loop by (simp add: onresult_def Let_def emitPartial_eq)
  show ?thesis using a b by (simp add: INITIAL_RETRY_DELAY_MS_def)
qed

theorem success_resets_retry_state_witness:
  "retryDelay (onstart (silent_env 9) 0 Primary (started\<lparr>retryDelay := 3000, consecutiveErrors := 9\<rparr>))
     = 100 \<and>
   consecutiveErrors
     (onresult (silent_env 9) \<lparr>resultIndex = 0, results = [(True, js ''ola'')]\<rparr>
        (started\<lparr>retryDelay := 3000, consecutiveErrors := 9\<rparr>)) = 0"
  using success_resets_retry_state [of "silent_env 9" 0 Primary
      "started\<lparr>retryDelay := 3000, consecutiveErrors := 9\<rparr>"
      "\<lparr>resultIndex = 0, results = [(True, js ''ola'')]\<rparr>"]
  by simp

text \<open>
  C8. \<^verbatim>\<open>setLanguage("en")\<close> with both recognition objects present sets the language
  tag of both to \<^verbatim>\<open>en-US\<close> at once. No other object and no other field of the two objects
  changes, no variable of the bridge changes, no timer is registered and no command is
  sent: the trace gains the debug line only.
\<close>

theorem setLanguage_updates_both_handles:
  assumes "recognition s = Some p" and "recognitionBackup s = Some b"
    and "p < length (sessions s)" and "b < length (sessions s)"
  shows "lookup_session (setLanguage e (js ''en'') s) p =
           Some ((sessions s ! p)\<lparr>lang := js ''en-US''\<rparr>) \<and>
         lookup_session (setLanguage e (js ''en'') s) b =
           Some ((sessions s ! b)\<lparr>lang := js ''en-US''\<rparr>) \<and>
         (\<forall>h. h \<noteq> p \<and> h \<noteq> b \<longrightarrow>
            lookup_session (setLanguage e (js ''en'') s) h = lookup_session s h) \<and>
         setLanguage e (js ''en'') s =
           s\<lparr>sessions := sessions (setLanguage e (js ''en'') s),
             trace := trace s @ emitted (onDebug e) (Debug (now e) (DbgLanguage (js ''en-US'')))\<rparr>"
  using assms
  by (auto simp add: setLanguage_def Let_def set_lang_def dbg_eq lookup_session_def js_def
      nth_list_update)

theorem setLanguage_updates_both_handles_witness:
  "recognition started = Some 0 \<and> recognitionBackup started = Some 1 \<and>
   0 < length (sessions started) \<and> 1 < length (sessions started) \<and>
   lookup_session (setLanguage (silent_env 5) (js ''en'') started) 0 =
     Some \<lparr>lang = js ''en-US'', slabel = Primary, isStarted = False\<rparr> \<and>
   lookup_session (setLanguage (silent_env 5) (js ''en'') started) 1 =
     Some \<lparr>lang = js ''en-US'', slabel = Backup, isStarted = False\<rparr> \<and>
   setLanguage (silent_env 5) (js ''en'') started =
     started\<lparr>sessions := sessions (setLanguage (silent_env 5) (js ''en'') started)\<rparr>"
proof -
  have h: "recognition started = Some 0" "recognitionBackup started = Some 1"
    "0 < length (sessions started)" "1 < length (sessions started)"
    by (simp_all add: started_eq)
  have s: "sessions started ! 0 = \<lparr>lang = js ''pt-BR'', slabel = Primary, isStarted = False\<rparr>"
    "sessions started ! 1 = \<lparr>lang = js ''pt-BR'', slabel = Backup, isStarted = False\<rparr>"
    by (simp_all add: started_eq)
  show ?thesis using h s setLanguage_updates_both_handles [OF h, of "silent_env 5"]
    by (simp add: emitted_def silent_env_def)
qed

text \<open>
  C9. Each of \<^verbatim>\<open>dbg\<close>, \<^verbatim>\<open>setBanner\<close>, \<^verbatim>\<open>emitStatus\<close>, \<^verbatim>\<open>emitTimer\<close>, \<^verbatim>\<open>emitTranscript\<close>,
  \<^verbatim>\<open>emitPartial\<close> and \<^verbatim>\<open>scheduleAutosave\<close> completes normally whatever the consumer's
  callback does, and the state it leaves is the state it would leave had the callback
  returned. So every step of the bridge ends in the state it would end in if all
  callbacks returned.
\<close>

theorem callback_exceptions_contained:
  "dbg_c e m s = Normal (state_of (dbg_c (returning e) m s)) \<and>
   setBanner_c e b s = Normal (state_of (setBanner_c (returning e) b s)) \<and>
   emitStatus_c e s = Normal (state_of (emitStatus_c (returning e) s)) \<and>
   emitTimer_c e s = Normal (state_of (emitTimer_c (returning e) s)) \<and>
   emitTranscript_c e s = Normal (state_of (emitTranscript_c (returning e) s)) \<and>
   emitPartial_c e s = Normal (state_of (emitPartial_c (returning e) s)) \<and>
   scheduleAutosave_c e s = Normal (state_of (scheduleAutosave_c (returning e) s)) \<and>
   step s (e, ev) = step s (returning e, ev)"
  unfolding dbg_c_def setBanner_c_def emitStatus_c_def emitTimer_c_def emitTranscript_c_def
    emitPartial_c_def scheduleAutosave_c_def
  by (simp add: returning_def timer_text_def try_call_normal [symmetric]
      step_returning [unfolded returning_def])

theorem callback_exceptions_contained_witness:
  "setBanner_c (throwing_env 0) BannerStopped initial =
     Normal (initial\<lparr>trace := [Banner BannerStopped]\<rparr>) \<and>
   scheduleAutosave_c (throwing_env 0) initial = Normal (initial\<lparr>trace := [Autosave]\<rparr>) \<and>
   step started (throwing_env 9, CallStop) = step started (listening_env 9, CallStop)"
proof -
  have r: "returning (throwing_env 9) = listening_env 9"
    by (simp add: returning_def throwing_env_def listening_env_def silent_env_def)
  show ?thesis
    using callback_exceptions_contained [of "throwing_env 0" undefined initial BannerStopped]
      callback_exceptions_contained [of "throwing_env 9" undefined started undefined CallStop]
    by (simp add: r)
      (simp add: returning_def throwing_env_def silent_env_def setBanner_c_def
        scheduleAutosave_c_def try_catch_empty_def call_cb_def initial_def)
qed

text \<open>
  C10. \<^verbatim>\<open>setNLines(v)\<close> stores \<^verbatim>\<open>Number(v)\<close> exactly when that number is finite and not
  negative; otherwise the state is what it was. Nothing but the line count changes, and
  \<^verbatim>\<open>getNLines()\<close> returns the stored count.
\<close>

theorem setNLines_stores_finite_nonnegative:
  "(isFinite n \<and> ge_zero n \<longrightarrow> Num (nLines (setNLines n s)) = n) \<and>
   (\<not> (isFinite n \<and> ge_zero n) \<longrightarrow> setNLines n s = s) \<and>
   setNLines n s = s\<lparr>nLines := nLines (setNLines n s)\<rparr> \<and>
   getNLines (setNLines n s) = nLines (setNLines n s)"
  by (cases n) (simp_all add: setNLines_def getNLines_def)

theorem setNLines_stores_finite_nonnegative_witness:
  "isFinite (Num 7) \<and> ge_zero (Num 7) \<and> getNLines (setNLines (Num 7) initial) = 7 \<and>
   \<not> (isFinite NaN \<and> ge_zero NaN) \<and> setNLines NaN initial = initial \<and>
   \<not> (isFinite (Num (- 1)) \<and> ge_zero (Num (- 1))) \<and> setNLines (Num (- 1)) initial = initial \<and>
   \<not> (isFinite PosInfinity \<and> ge_zero PosInfinity) \<and> setNLines PosInfinity initial = initial"
  using setNLines_stores_finite_nonnegative [of "Num 7" initial]
    setNLines_stores_finite_nonnegative [of NaN initial]
    setNLines_stores_finite_nonnegative [of "Num (- 1)" initial]
    setNLines_stores_finite_nonnegative [of PosInfinity initial]
  by simp

end
